theory Spec2Isabelle
  imports Main "HOL-Library.Word" "HOL-Library.Monad_Syntax"
begin

section \<open>The baseline interpreter of evmone (lib/evmone/baseline.cpp)\<close>

text \<open>
  A shallow embedding of \<^verbatim>\<open>baseline.cpp\<close>: the pre-scan for jump destinations, the
  helpers \<^verbatim>\<open>op_jump\<close>, \<^verbatim>\<open>load_push\<close>, \<^verbatim>\<open>op_return\<close> and \<^verbatim>\<open>check_requirements\<close>, and the
  dispatch loop of \<^verbatim>\<open>baseline_execute\<close> with its exit block.

  Pointers into the code (\<^verbatim>\<open>pc\<close>, \<^verbatim>\<open>code_end\<close>) are byte offsets: \<^verbatim>\<open>code\<close> is offset 0
  and \<^verbatim>\<open>code_end\<close> is \<open>length code\<close>.
\<close>

subsection \<open>Data\<close>

type_synonym uint8 = "8 word"
type_synonym uint256 = "256 word"

text \<open>
  Modelled from the spec: the enumeration \<^verbatim>\<open>evmc_status_code\<close> of EVMC, which is not among
  the sources here. The spec's statuses, and two of the failures a host can surface.
\<close>

datatype evmc_status_code =
    EVMC_SUCCESS
  | EVMC_FAILURE
  | EVMC_REVERT
  | EVMC_OUT_OF_GAS
  | EVMC_INVALID_INSTRUCTION
  | EVMC_UNDEFINED_INSTRUCTION
  | EVMC_STACK_OVERFLOW
  | EVMC_STACK_UNDERFLOW
  | EVMC_BAD_JUMP_DESTINATION
  | EVMC_INVALID_MEMORY_ACCESS
  | EVMC_CALL_DEPTH_EXCEEDED
  | EVMC_STATIC_MODE_VIOLATION

text \<open>
  Modelled from the spec: the opcode constants of \<^verbatim>\<open>evmc/instructions.h\<close>, which is not among
  the sources here. The spec numbers the opcodes as the Yellow Paper does, with
  \<^verbatim>\<open>PUSH1..PUSH32 = 0x60..0x7F\<close>, \<^verbatim>\<open>DUP1..DUP16 = 0x80..0x8F\<close>, \<^verbatim>\<open>SWAP1..SWAP16 = 0x90..0x9F\<close>
  and \<^verbatim>\<open>LOG0..LOG4 = 0xA0..0xA4\<close>.
\<close>

abbreviation OP_STOP :: uint8 where "OP_STOP \<equiv> 0x00"
abbreviation OP_ADD :: uint8 where "OP_ADD \<equiv> 0x01"
abbreviation OP_MUL :: uint8 where "OP_MUL \<equiv> 0x02"
abbreviation OP_SUB :: uint8 where "OP_SUB \<equiv> 0x03"
abbreviation OP_DIV :: uint8 where "OP_DIV \<equiv> 0x04"
abbreviation OP_SDIV :: uint8 where "OP_SDIV \<equiv> 0x05"
abbreviation OP_MOD :: uint8 where "OP_MOD \<equiv> 0x06"
abbreviation OP_SMOD :: uint8 where "OP_SMOD \<equiv> 0x07"
abbreviation OP_ADDMOD :: uint8 where "OP_ADDMOD \<equiv> 0x08"
abbreviation OP_MULMOD :: uint8 where "OP_MULMOD \<equiv> 0x09"
abbreviation OP_EXP :: uint8 where "OP_EXP \<equiv> 0x0a"
abbreviation OP_SIGNEXTEND :: uint8 where "OP_SIGNEXTEND \<equiv> 0x0b"
abbreviation OP_LT :: uint8 where "OP_LT \<equiv> 0x10"
abbreviation OP_GT :: uint8 where "OP_GT \<equiv> 0x11"
abbreviation OP_SLT :: uint8 where "OP_SLT \<equiv> 0x12"
abbreviation OP_SGT :: uint8 where "OP_SGT \<equiv> 0x13"
abbreviation OP_EQ :: uint8 where "OP_EQ \<equiv> 0x14"
abbreviation OP_ISZERO :: uint8 where "OP_ISZERO \<equiv> 0x15"
abbreviation OP_AND :: uint8 where "OP_AND \<equiv> 0x16"
abbreviation OP_OR :: uint8 where "OP_OR \<equiv> 0x17"
abbreviation OP_XOR :: uint8 where "OP_XOR \<equiv> 0x18"
abbreviation OP_NOT :: uint8 where "OP_NOT \<equiv> 0x19"
abbreviation OP_BYTE :: uint8 where "OP_BYTE \<equiv> 0x1a"
abbreviation OP_SHL :: uint8 where "OP_SHL \<equiv> 0x1b"
abbreviation OP_SHR :: uint8 where "OP_SHR \<equiv> 0x1c"
abbreviation OP_SAR :: uint8 where "OP_SAR \<equiv> 0x1d"
abbreviation OP_SHA3 :: uint8 where "OP_SHA3 \<equiv> 0x20"
abbreviation OP_ADDRESS :: uint8 where "OP_ADDRESS \<equiv> 0x30"
abbreviation OP_BALANCE :: uint8 where "OP_BALANCE \<equiv> 0x31"
abbreviation OP_ORIGIN :: uint8 where "OP_ORIGIN \<equiv> 0x32"
abbreviation OP_CALLER :: uint8 where "OP_CALLER \<equiv> 0x33"
abbreviation OP_CALLVALUE :: uint8 where "OP_CALLVALUE \<equiv> 0x34"
abbreviation OP_CALLDATALOAD :: uint8 where "OP_CALLDATALOAD \<equiv> 0x35"
abbreviation OP_CALLDATASIZE :: uint8 where "OP_CALLDATASIZE \<equiv> 0x36"
abbreviation OP_CALLDATACOPY :: uint8 where "OP_CALLDATACOPY \<equiv> 0x37"
abbreviation OP_CODESIZE :: uint8 where "OP_CODESIZE \<equiv> 0x38"
abbreviation OP_CODECOPY :: uint8 where "OP_CODECOPY \<equiv> 0x39"
abbreviation OP_GASPRICE :: uint8 where "OP_GASPRICE \<equiv> 0x3a"
abbreviation OP_EXTCODESIZE :: uint8 where "OP_EXTCODESIZE \<equiv> 0x3b"
abbreviation OP_EXTCODECOPY :: uint8 where "OP_EXTCODECOPY \<equiv> 0x3c"
abbreviation OP_RETURNDATASIZE :: uint8 where "OP_RETURNDATASIZE \<equiv> 0x3d"
abbreviation OP_RETURNDATACOPY :: uint8 where "OP_RETURNDATACOPY \<equiv> 0x3e"
abbreviation OP_EXTCODEHASH :: uint8 where "OP_EXTCODEHASH \<equiv> 0x3f"
abbreviation OP_BLOCKHASH :: uint8 where "OP_BLOCKHASH \<equiv> 0x40"
abbreviation OP_COINBASE :: uint8 where "OP_COINBASE \<equiv> 0x41"
abbreviation OP_TIMESTAMP :: uint8 where "OP_TIMESTAMP \<equiv> 0x42"
abbreviation OP_NUMBER :: uint8 where "OP_NUMBER \<equiv> 0x43"
abbreviation OP_DIFFICULTY :: uint8 where "OP_DIFFICULTY \<equiv> 0x44"
abbreviation OP_GASLIMIT :: uint8 where "OP_GASLIMIT \<equiv> 0x45"
abbreviation OP_CHAINID :: uint8 where "OP_CHAINID \<equiv> 0x46"
abbreviation OP_SELFBALANCE :: uint8 where "OP_SELFBALANCE \<equiv> 0x47"
abbreviation OP_POP :: uint8 where "OP_POP \<equiv> 0x50"
abbreviation OP_MLOAD :: uint8 where "OP_MLOAD \<equiv> 0x51"
abbreviation OP_MSTORE :: uint8 where "OP_MSTORE \<equiv> 0x52"
abbreviation OP_MSTORE8 :: uint8 where "OP_MSTORE8 \<equiv> 0x53"
abbreviation OP_SLOAD :: uint8 where "OP_SLOAD \<equiv> 0x54"
abbreviation OP_SSTORE :: uint8 where "OP_SSTORE \<equiv> 0x55"
abbreviation OP_JUMP :: uint8 where "OP_JUMP \<equiv> 0x56"
abbreviation OP_JUMPI :: uint8 where "OP_JUMPI \<equiv> 0x57"
abbreviation OP_PC :: uint8 where "OP_PC \<equiv> 0x58"
abbreviation OP_MSIZE :: uint8 where "OP_MSIZE \<equiv> 0x59"
abbreviation OP_GAS :: uint8 where "OP_GAS \<equiv> 0x5a"
abbreviation OP_JUMPDEST :: uint8 where "OP_JUMPDEST \<equiv> 0x5b"
abbreviation OP_PUSH1 :: uint8 where "OP_PUSH1 \<equiv> 0x60"
abbreviation OP_PUSH32 :: uint8 where "OP_PUSH32 \<equiv> 0x7f"
abbreviation OP_DUP1 :: uint8 where "OP_DUP1 \<equiv> 0x80"
abbreviation OP_DUP16 :: uint8 where "OP_DUP16 \<equiv> 0x8f"
abbreviation OP_SWAP1 :: uint8 where "OP_SWAP1 \<equiv> 0x90"
abbreviation OP_SWAP16 :: uint8 where "OP_SWAP16 \<equiv> 0x9f"
abbreviation OP_LOG0 :: uint8 where "OP_LOG0 \<equiv> 0xa0"
abbreviation OP_LOG1 :: uint8 where "OP_LOG1 \<equiv> 0xa1"
abbreviation OP_LOG2 :: uint8 where "OP_LOG2 \<equiv> 0xa2"
abbreviation OP_LOG3 :: uint8 where "OP_LOG3 \<equiv> 0xa3"
abbreviation OP_LOG4 :: uint8 where "OP_LOG4 \<equiv> 0xa4"
abbreviation OP_CREATE :: uint8 where "OP_CREATE \<equiv> 0xf0"
abbreviation OP_CALL :: uint8 where "OP_CALL \<equiv> 0xf1"
abbreviation OP_CALLCODE :: uint8 where "OP_CALLCODE \<equiv> 0xf2"
abbreviation OP_RETURN :: uint8 where "OP_RETURN \<equiv> 0xf3"
abbreviation OP_DELEGATECALL :: uint8 where "OP_DELEGATECALL \<equiv> 0xf4"
abbreviation OP_CREATE2 :: uint8 where "OP_CREATE2 \<equiv> 0xf5"
abbreviation OP_STATICCALL :: uint8 where "OP_STATICCALL \<equiv> 0xfa"
abbreviation OP_REVERT :: uint8 where "OP_REVERT \<equiv> 0xfd"
abbreviation OP_INVALID :: uint8 where "OP_INVALID \<equiv> 0xfe"
abbreviation OP_SELFDESTRUCT :: uint8 where "OP_SELFDESTRUCT \<equiv> 0xff"

subsection \<open>The jump-destination map\<close>

text \<open>
  \<^verbatim>\<open>using JumpdestMap = std::vector<bool>\<close>. The loop of \<^verbatim>\<open>build_jumpdest_map\<close>, with the
  index \<open>i\<close> and the vector \<open>m\<close> as its state; the \<^verbatim>\<open>++i\<close> of the \<^verbatim>\<open>for\<close> header is
  the \<open>+ 1\<close> of every recursive call.
\<close>

type_synonym JumpdestMap = "bool list"

function jumpdest_loop :: "uint8 list \<Rightarrow> nat \<Rightarrow> JumpdestMap \<Rightarrow> JumpdestMap" where
  "jumpdest_loop code i m =
     (if i < length code then
        (let op = code ! i in
         if op = OP_JUMPDEST then jumpdest_loop code (i + 1) (m[i := True])
         else if op \<ge> OP_PUSH1 \<and> op \<le> OP_PUSH32
           then jumpdest_loop code (i + (unat op - unat OP_PUSH1 + 1) + 1) m
         else jumpdest_loop code (i + 1) m)
      else m)"
  by pat_completeness auto
termination
  by (relation "measure (\<lambda>(code, i, m). length code - i)") auto

declare jumpdest_loop.simps [simp del]

definition build_jumpdest_map :: "uint8 list \<Rightarrow> JumpdestMap" where
  "build_jumpdest_map code = jumpdest_loop code 0 (replicate (length code) False)"

text \<open>
  The specification's reading of the map, stated apart from the loop: the positions where
  an instruction starts when the code is read from offset \<open>s\<close>, each \<^verbatim>\<open>PUSHn\<close> followed
  by its \<open>n\<close> bytes of immediate data; and the bytes that lie inside the immediate data of
  a preceding push instruction.
\<close>

definition immediate_size :: "uint8 \<Rightarrow> nat" where
  "immediate_size op = (if OP_PUSH1 \<le> op \<and> op \<le> OP_PUSH32 then unat op - 95 else 0)"

inductive_set instruction_starts :: "uint8 list \<Rightarrow> nat \<Rightarrow> nat set"
  for code :: "uint8 list" and s :: nat where
    first: "s \<in> instruction_starts code s"
  | skip: "k \<in> instruction_starts code s \<Longrightarrow> k < length code \<Longrightarrow>
           k + 1 + immediate_size (code ! k) \<in> instruction_starts code s"

definition in_push_data :: "uint8 list \<Rightarrow> nat \<Rightarrow> bool" where
  "in_push_data code i \<longleftrightarrow>
     (\<exists>j \<in> instruction_starts code 0. j < length code \<and> OP_PUSH1 \<le> code ! j \<and> code ! j \<le> OP_PUSH32
        \<and> j < i \<and> i \<le> j + immediate_size (code ! j))"

subsection \<open>The stack\<close>

text \<open>
  Modelled from the spec: the class \<^verbatim>\<open>evm_stack\<close> of \<^verbatim>\<open>execution_state.hpp\<close>, which is not
  among the sources here. The spec's Stack is a sequence of 256-bit words with the upper
  bound 1024 and the operations push, pop and index from the top (0 is the top). The top
  of the stack is the head of the list. Push on a full stack, pop on an empty stack and an
  index beyond the height are outside the class's contract (the dispatcher checks the
  height first): they have no result here.
\<close>

type_synonym evm_stack = "uint256 list"

definition limit :: nat where
  "limit = 1024"

definition stack_push :: "uint256 \<Rightarrow> evm_stack \<Rightarrow> evm_stack option" where
  "stack_push x st = (if length st < limit then Some (x # st) else None)"

definition stack_pop :: "evm_stack \<Rightarrow> (uint256 \<times> evm_stack) option" where
  "stack_pop st = (case st of [] \<Rightarrow> None | x # rest \<Rightarrow> Some (x, rest))"

definition stack_at :: "evm_stack \<Rightarrow> nat \<Rightarrow> uint256 option" where
  "stack_at st i = (if i < length st then Some (st ! i) else None)"

subsection \<open>The execution state\<close>

text \<open>
  The fields of \<^verbatim>\<open>ExecutionState\<close> that \<^verbatim>\<open>baseline.cpp\<close> reads and writes. Everything
  else of the state (message, revision, host and its context, return data) is the
  extension \<open>'a\<close> of the record. \<^verbatim>\<open>gas_left\<close> is an \<^verbatim>\<open>int64_t\<close>: it is an \<open>int\<close> here, and
  where \<^verbatim>\<open>baseline.cpp\<close> computes on it the result is brought back into the range of
  \<^verbatim>\<open>int64_t\<close> by \<open>int64_t\<close>, the two's-complement wrap-around of the 64-bit subtraction.
\<close>

definition int64_t :: "int \<Rightarrow> int" where
  "int64_t x = (x + 2 ^ 63) mod 2 ^ 64 - 2 ^ 63"

record ExecutionState =
  gas_left :: int
  stack :: evm_stack
  memory :: "uint8 list"
  code :: "uint8 list"
  output_offset :: nat
  output_size :: nat
  status :: evmc_status_code

record evmc_message =
  gas :: int

text \<open>
  Modelled from the spec: the constructor of \<^verbatim>\<open>ExecutionState\<close> (\<^verbatim>\<open>execution_state.hpp\<close>).
  The spec gives the status as initially \<^verbatim>\<open>SUCCESS\<close>, the memory as starting empty, the
  gas counter as the gas of the message and the output window as empty.
\<close>

definition ExecutionState_init ::
    "'m evmc_message_scheme \<Rightarrow> uint8 list \<Rightarrow> 'a \<Rightarrow> 'a ExecutionState_scheme" where
  "ExecutionState_init msg cd x =
     \<lparr>gas_left = gas msg, stack = [], memory = [], code = cd,
      output_offset = 0, output_size = 0, status = EVMC_SUCCESS, \<dots> = x\<rparr>"

text \<open>
  Modelled from the spec: an entry of the instruction metrics table
  (\<^verbatim>\<open>evmc_instruction_metrics\<close> of EVMC): the base gas cost, the required stack height and
  the change of the stack height of an opcode. The gas cost is an \<^verbatim>\<open>int16_t\<close>, read as a
  signed value by \<open>sint\<close>; the two heights are \<^verbatim>\<open>int8_t\<close>, which the comparisons of
  \<^verbatim>\<open>check_requirements\<close> promote to \<^verbatim>\<open>int\<close>.
\<close>

record evmc_instruction_metrics =
  gas_cost :: "16 word"
  stack_height_required :: int
  stack_height_change :: int

text \<open>The conversion \<^verbatim>\<open>static_cast<size_t>\<close> of a 256-bit word keeps its low 64 bits.\<close>

definition size_t_max :: nat where
  "size_t_max = 2 ^ 64 - 1"

definition to_size_t :: "uint256 \<Rightarrow> nat" where
  "to_size_t x = unat x mod 2 ^ 64"

subsection \<open>Helpers of \<^verbatim>\<open>instructions.hpp\<close>\<close>

text \<open>
  Modelled from the spec: \<^verbatim>\<open>intx::be::load\<close>, the load of a 256-bit word from a big-endian
  byte buffer (the first byte is the most significant one).
\<close>

definition be_load :: "uint8 list \<Rightarrow> uint256" where
  "be_load bs = foldl (\<lambda>acc b. acc * 256 + ucast b) 0 bs"

text \<open>The number the bytes denote big-endian, as a natural number.\<close>

definition be_nat :: "uint8 list \<Rightarrow> nat" where
  "be_nat bs = foldl (\<lambda>acc b. acc * 256 + unat b) 0 bs"

text \<open>
  Modelled from the spec: \<^verbatim>\<open>check_memory\<close> of \<^verbatim>\<open>instructions.hpp\<close>, after the spec's memory
  expansion pricing: a zero-length access never grows memory and never fails; an offset or
  length (or their sum) that does not fit \<^verbatim>\<open>size_t\<close> fails; the new word count is
  \<open>\<lceil>(offset + len) / 32\<rceil>\<close>; growing from \<open>old\<close> to \<open>new\<close> words costs \<open>C new - C old\<close> with
  \<open>C w = 3 w + \<lfloor>w\<^sup>2 / 512\<rfloor>\<close>, deducted from \<^verbatim>\<open>gas_left\<close>; if that goes negative the check
  fails and memory does not grow; otherwise the buffer is zero-extended to \<open>32 new\<close> bytes.
\<close>

definition num_words :: "nat \<Rightarrow> nat" where
  "num_words n = (n + 31) div 32"

definition memory_cost :: "nat \<Rightarrow> int" where
  "memory_cost w = 3 * int w + int (w * w div 512)"

definition check_memory ::
    "'a ExecutionState_scheme \<Rightarrow> uint256 \<Rightarrow> uint256 \<Rightarrow> bool \<times> 'a ExecutionState_scheme" where
  "check_memory state offset sz =
     (if sz = 0 then (True, state)
      else if unat offset > size_t_max \<or> unat sz > size_t_max
                \<or> unat offset + unat sz > size_t_max then (False, state)
      else
        (let new_word_count = num_words (unat offset + unat sz);
             old_word_count = length (memory state) div 32
         in if new_word_count \<le> old_word_count then (True, state)
            else
              (let state1 = state\<lparr>gas_left := gas_left state
                                - (memory_cost new_word_count - memory_cost old_word_count)\<rparr>
               in if gas_left state1 < 0 then (False, state1)
                  else (True, state1\<lparr>memory := memory state1
                          @ replicate (32 * new_word_count - length (memory state1)) 0\<rparr>))))"

text \<open>
  The instructions that \<^verbatim>\<open>baseline.cpp\<close> calls and \<^verbatim>\<open>instructions.hpp\<close> implements are a
  parameter of the model, one function for each of the three shapes of call:
  \<^item> \<^verbatim>\<open>add(state->stack)\<close>: the instruction gets the stack only (\<^verbatim>\<open>add\<close>, \<^verbatim>\<open>mul\<close>, ...,
    \<^verbatim>\<open>sar\<close>, \<^verbatim>\<open>dup\<close>, \<^verbatim>\<open>swap\<close>);
  \<^item> \<^verbatim>\<open>address(*state)\<close>: the instruction gets the state and returns nothing;
  \<^item> \<^verbatim>\<open>const auto status_code = exp(*state)\<close>: the instruction gets the state and returns
    a status code.
  Each is indexed by the opcode of the \<^verbatim>\<open>case\<close> that calls it.
\<close>

record 'a instructions =
  stack_instr :: "uint8 \<Rightarrow> evm_stack \<Rightarrow> evm_stack"
  state_instr :: "uint8 \<Rightarrow> 'a ExecutionState_scheme \<Rightarrow> 'a ExecutionState_scheme"
  status_instr :: "uint8 \<Rightarrow> 'a ExecutionState_scheme
                     \<Rightarrow> evmc_status_code \<times> 'a ExecutionState_scheme"

text \<open>
  Modelled from the spec: \<^verbatim>\<open>pop\<close> of \<^verbatim>\<open>instructions.hpp\<close>, the spec's stack-only \<^verbatim>\<open>POP\<close>: it
  pops the top item.
\<close>

definition pop :: "evm_stack \<Rightarrow> evm_stack option" where
  "pop st = map_option snd (stack_pop st)"

subsection \<open>The functions of \<^verbatim>\<open>baseline.cpp\<close>\<close>

text \<open>
  \<^verbatim>\<open>op_jump\<close> returns the new \<^verbatim>\<open>pc\<close>. The comparison \<^verbatim>\<open>dst >= jumpdest_map.size()\<close> is one of
  256-bit values; \<^verbatim>\<open>&*state.code.end()\<close> is the offset \<open>length (code state)\<close>.
\<close>

definition op_jump ::
    "'a ExecutionState_scheme \<Rightarrow> JumpdestMap \<Rightarrow> (nat \<times> 'a ExecutionState_scheme) option" where
  "op_jump state jumpdest_map =
     do {
       (dst, rest) \<leftarrow> stack_pop (stack state);
       let state1 = state\<lparr>stack := rest\<rparr>;
       if unat dst \<ge> length jumpdest_map \<or> \<not> jumpdest_map ! (to_size_t dst)
       then Some (length (code state1), state1\<lparr>status := EVMC_BAD_JUMP_DESTINATION\<rparr>)
       else Some (to_size_t dst, state1)
     }"

text \<open>
  \<^verbatim>\<open>load_push<Len>\<close>: the pointer \<^verbatim>\<open>code\<close> is the offset \<open>p\<close> into the code bytes \<open>cd\<close>.
\<close>

definition load_push ::
    "nat \<Rightarrow> 'a ExecutionState_scheme \<Rightarrow> uint8 list \<Rightarrow> nat \<Rightarrow> nat
       \<Rightarrow> (nat \<times> 'a ExecutionState_scheme) option" where
  "load_push Len state cd p code_end =
     (if p + Len > code_end then Some (code_end, state)
      else do {
        let buffer = take Len (drop p cd);
        st \<leftarrow> stack_push (be_load buffer) (stack state);
        Some (p + Len, state\<lparr>stack := st\<rparr>)
      })"

definition op_return ::
    "evmc_status_code \<Rightarrow> 'a ExecutionState_scheme \<Rightarrow> 'a ExecutionState_scheme option" where
  "op_return StatusCode state =
     do {
       offset \<leftarrow> stack_at (stack state) 0;
       sz \<leftarrow> stack_at (stack state) 1;
       (case check_memory state offset sz of
          (False, state1) \<Rightarrow> Some (state1\<lparr>status := EVMC_OUT_OF_GAS\<rparr>)
        | (True, state1) \<Rightarrow>
            (let state2 = state1\<lparr>output_size := to_size_t sz\<rparr>;
                 state3 = (if output_size state2 \<noteq> 0
                           then state2\<lparr>output_offset := to_size_t offset\<rparr> else state2)
             in Some (state3\<lparr>status := StatusCode\<rparr>)))
     }"

text \<open>
  \<^verbatim>\<open>check_requirements\<close>: the names table has a null entry (\<open>None\<close>) for an opcode that the
  revision does not define. The state comes back with the gas charged:
  \<^verbatim>\<open>state.gas_left -= metrics.gas_cost\<close> subtracts in \<^verbatim>\<open>int64_t\<close>.
\<close>

definition check_requirements ::
    "(uint8 \<Rightarrow> string option) \<Rightarrow> (uint8 \<Rightarrow> evmc_instruction_metrics)
       \<Rightarrow> 'a ExecutionState_scheme \<Rightarrow> uint8
       \<Rightarrow> evmc_status_code \<times> 'a ExecutionState_scheme" where
  "check_requirements instruction_names instruction_metrics state op =
     (let metrics = instruction_metrics op in
      if instruction_names op = None then (EVMC_UNDEFINED_INSTRUCTION, state)
      else
        (let state1 = state\<lparr>gas_left := int64_t (gas_left state - sint (gas_cost metrics))\<rparr> in
         if gas_left state1 < 0 then (EVMC_OUT_OF_GAS, state1)
         else
           (let stack_size = int (length (stack state1)) in
            if stack_size < stack_height_required metrics then (EVMC_STACK_UNDERFLOW, state1)
            else if stack_size + stack_height_change metrics > int limit
              then (EVMC_STACK_OVERFLOW, state1)
            else (EVMC_SUCCESS, state1))))"

subsection \<open>The dispatch switch\<close>

text \<open>
  One pass through the \<^verbatim>\<open>switch\<close> of \<^verbatim>\<open>baseline_execute\<close> either leaves the loop
  (\<^verbatim>\<open>goto exit\<close>) or goes on with a new \<^verbatim>\<open>pc\<close> (\<^verbatim>\<open>break\<close> followed by \<^verbatim>\<open>++pc\<close>, or
  \<^verbatim>\<open>continue\<close> with the \<^verbatim>\<open>pc\<close> the case has set).
\<close>

datatype 'a outcome = Exit 'a | Continue nat 'a

fun outcome_state :: "'a outcome \<Rightarrow> 'a" where
  "outcome_state (Exit state) = state"
| "outcome_state (Continue pc state) = state"

text \<open>The cases of the switch that have the same shape, by the opcodes they handle.\<close>

definition stack_opcodes :: "uint8 list" where
  "stack_opcodes =
     [OP_ADD, OP_MUL, OP_SUB, OP_DIV, OP_SDIV, OP_MOD, OP_SMOD, OP_ADDMOD, OP_MULMOD,
      OP_SIGNEXTEND, OP_LT, OP_GT, OP_SLT, OP_SGT, OP_EQ, OP_ISZERO, OP_AND, OP_OR, OP_XOR,
      OP_NOT, OP_BYTE, OP_SHL, OP_SHR, OP_SAR]"

definition state_opcodes :: "uint8 list" where
  "state_opcodes =
     [OP_ADDRESS, OP_BALANCE, OP_ORIGIN, OP_CALLER, OP_CALLVALUE, OP_CALLDATALOAD,
      OP_CALLDATASIZE, OP_GASPRICE, OP_EXTCODESIZE, OP_RETURNDATASIZE, OP_EXTCODEHASH,
      OP_BLOCKHASH, OP_COINBASE, OP_TIMESTAMP, OP_NUMBER, OP_DIFFICULTY, OP_GASLIMIT,
      OP_CHAINID, OP_SELFBALANCE, OP_MSIZE, OP_SLOAD]"

definition status_opcodes :: "uint8 list" where
  "status_opcodes =
     [OP_EXP, OP_SHA3, OP_CALLDATACOPY, OP_CODECOPY, OP_EXTCODECOPY, OP_RETURNDATACOPY,
      OP_MLOAD, OP_MSTORE, OP_MSTORE8, OP_SSTORE, OP_LOG0, OP_LOG1, OP_LOG2, OP_LOG3, OP_LOG4,
      OP_CREATE, OP_CALL, OP_CALLCODE, OP_DELEGATECALL, OP_STATICCALL, OP_CREATE2]"

definition dispatch ::
    "'a instructions \<Rightarrow> JumpdestMap \<Rightarrow> uint8 list \<Rightarrow> nat \<Rightarrow> nat
       \<Rightarrow> 'a ExecutionState_scheme \<Rightarrow> uint8
       \<Rightarrow> 'a ExecutionState_scheme outcome option" where
  "dispatch I jumpdest_map cd code_end pc state op =
     (if op = OP_STOP then Some (Exit state)
      else if op \<in> set stack_opcodes \<or> (OP_DUP1 \<le> op \<and> op \<le> OP_DUP16)
                \<or> (OP_SWAP1 \<le> op \<and> op \<le> OP_SWAP16)
        then Some (Continue (pc + 1) (state\<lparr>stack := stack_instr I op (stack state)\<rparr>))
      else if op \<in> set status_opcodes
        then (let (status_code, state1) = status_instr I op state in
              if status_code \<noteq> EVMC_SUCCESS
              then Some (Exit (state1\<lparr>status := status_code\<rparr>))
              else Some (Continue (pc + 1) state1))
      else if op \<in> set state_opcodes
        then Some (Continue (pc + 1) (state_instr I op state))
      else if op = OP_CODESIZE
        then do {
          st \<leftarrow> stack_push (of_nat (length cd)) (stack state);
          Some (Continue (pc + 1) (state\<lparr>stack := st\<rparr>))
        }
      else if op = OP_POP
        then do {
          st \<leftarrow> pop (stack state);
          Some (Continue (pc + 1) (state\<lparr>stack := st\<rparr>))
        }
      else if op = OP_JUMP
        then do {
          (pc', state1) \<leftarrow> op_jump state jumpdest_map;
          Some (Continue pc' state1)
        }
      else if op = OP_JUMPI
        then do {
          cond \<leftarrow> stack_at (stack state) 1;
          (pc', state1) \<leftarrow>
            (if cond \<noteq> 0 then op_jump state jumpdest_map
             else do {
               (_, st) \<leftarrow> stack_pop (stack state);
               Some (pc + 1, state\<lparr>stack := st\<rparr>)
             });
          (_, st) \<leftarrow> stack_pop (stack state1);
          Some (Continue pc' (state1\<lparr>stack := st\<rparr>))
        }
      else if op = OP_PC
        then do {
          st \<leftarrow> stack_push (of_nat pc) (stack state);
          Some (Continue (pc + 1) (state\<lparr>stack := st\<rparr>))
        }
      else if op = OP_GAS
        then do {
          st \<leftarrow> stack_push (of_int (gas_left state mod 2 ^ 64)) (stack state);
          Some (Continue (pc + 1) (state\<lparr>stack := st\<rparr>))
        }
      else if op = OP_JUMPDEST then Some (Continue (pc + 1) state)
      else if OP_PUSH1 \<le> op \<and> op \<le> OP_PUSH32
        then do {
          (pc', state1) \<leftarrow> load_push (unat op - unat OP_PUSH1 + 1) state cd (pc + 1) code_end;
          Some (Continue pc' state1)
        }
      else if op = OP_RETURN then map_option Exit (op_return EVMC_SUCCESS state)
      else if op = OP_REVERT then map_option Exit (op_return EVMC_REVERT state)
      else if op = OP_INVALID then Some (Exit (state\<lparr>status := EVMC_INVALID_INSTRUCTION\<rparr>))
      else if op = OP_SELFDESTRUCT
        then (let (status_code, state1) = status_instr I op state in
              Some (Exit (state1\<lparr>status := status_code\<rparr>)))
      else None)"

subsection \<open>The loop and the exit block of \<^verbatim>\<open>baseline_execute\<close>\<close>

text \<open>
  The body of the \<^verbatim>\<open>while\<close> loop at a \<^verbatim>\<open>pc\<close> inside the code: fetch the opcode, check
  the requirements (a failure sets the status and leaves the loop), then the switch. The
  tables of the revision, \<^verbatim>\<open>evmc_get_instruction_names_table(rev)\<close> and
  \<^verbatim>\<open>evmc_get_instruction_metrics_table(rev)\<close>, are parameters.
\<close>

definition loop_body ::
    "(uint8 \<Rightarrow> string option) \<Rightarrow> (uint8 \<Rightarrow> evmc_instruction_metrics) \<Rightarrow> 'a instructions
       \<Rightarrow> JumpdestMap \<Rightarrow> uint8 list \<Rightarrow> nat \<Rightarrow> nat \<Rightarrow> 'a ExecutionState_scheme
       \<Rightarrow> 'a ExecutionState_scheme outcome option" where
  "loop_body instruction_names instruction_metrics I jumpdest_map cd code_end pc state =
     (let op = cd ! pc;
          (status, state1) = check_requirements instruction_names instruction_metrics state op
      in if status \<noteq> EVMC_SUCCESS then Some (Exit (state1\<lparr>status := status\<rparr>))
         else dispatch I jumpdest_map cd code_end pc state1 op)"

text \<open>
  The \<^verbatim>\<open>while (pc != code_end)\<close> loop. It has no result (\<open>None\<close>) when it runs forever, when
  the body has none, and when \<^verbatim>\<open>pc\<close> is beyond \<^verbatim>\<open>code_end\<close>, where \<^verbatim>\<open>*pc\<close> reads outside
  the code.
\<close>

partial_function (option) baseline_execute_loop ::
    "(uint8 \<Rightarrow> string option) \<Rightarrow> (uint8 \<Rightarrow> evmc_instruction_metrics) \<Rightarrow> 'a instructions
       \<Rightarrow> JumpdestMap \<Rightarrow> uint8 list \<Rightarrow> nat \<Rightarrow> nat \<Rightarrow> 'a ExecutionState_scheme
       \<Rightarrow> 'a ExecutionState_scheme option" where
  "baseline_execute_loop instruction_names instruction_metrics I jumpdest_map cd code_end pc state =
     (if pc = code_end then Some state
      else if pc > code_end then None
      else
        (case loop_body instruction_names instruction_metrics I jumpdest_map cd code_end pc state of
           None \<Rightarrow> None
         | Some (Exit state1) \<Rightarrow> Some state1
         | Some (Continue pc' state1) \<Rightarrow>
             baseline_execute_loop instruction_names instruction_metrics I jumpdest_map
               cd code_end pc' state1))"

declare baseline_execute_loop.simps [code]

text \<open>
  The result (\<^verbatim>\<open>evmc_result\<close>). Modelled from the spec: \<^verbatim>\<open>evmc::make_result\<close>, which copies
  the window of \<^verbatim>\<open>output_size\<close> bytes that starts at \<^verbatim>\<open>&memory[output_offset]\<close>; the output
  is empty if \<^verbatim>\<open>output_size\<close> is 0.
\<close>

record evmc_result =
  status_code :: evmc_status_code
  result_gas_left :: int
  output_data :: "uint8 list"
  result_output_size :: nat

definition make_result ::
    "evmc_status_code \<Rightarrow> int \<Rightarrow> uint8 list \<Rightarrow> nat \<Rightarrow> nat \<Rightarrow> evmc_result" where
  "make_result st g mem off n =
     \<lparr>status_code = st, result_gas_left = g,
      output_data = (if n = 0 then [] else take n (drop off mem)),
      result_output_size = n\<rparr>"

definition exit_block :: "'a ExecutionState_scheme \<Rightarrow> evmc_result" where
  "exit_block state =
     (let g = (if status state = EVMC_SUCCESS \<or> status state = EVMC_REVERT
               then gas_left state else 0)
      in make_result (status state) g (memory state) (output_offset state) (output_size state))"

definition baseline_execute ::
    "(uint8 \<Rightarrow> string option) \<Rightarrow> (uint8 \<Rightarrow> evmc_instruction_metrics) \<Rightarrow> 'a instructions
       \<Rightarrow> 'a \<Rightarrow> 'm evmc_message_scheme \<Rightarrow> uint8 list \<Rightarrow> evmc_result option" where
  "baseline_execute instruction_names instruction_metrics I host msg cd =
     (let jumpdest_map = build_jumpdest_map cd;
          state = ExecutionState_init msg cd host;
          code_end = length cd
      in map_option exit_block
           (baseline_execute_loop instruction_names instruction_metrics I jumpdest_map
              cd code_end 0 state))"

subsection \<open>Conditions on the parameters\<close>

text \<open>
  What the theorems below ask of the instructions of \<^verbatim>\<open>instructions.hpp\<close> and of the
  metrics table. The output window is written by \<^verbatim>\<open>op_return\<close> alone:
\<close>

definition instructions_keep_output :: "'a instructions \<Rightarrow> bool" where
  "instructions_keep_output I \<longleftrightarrow>
     (\<forall>op s. output_size (state_instr I op s) = output_size s) \<and>
     (\<forall>op s. output_size (snd (status_instr I op s)) = output_size s)"

text \<open>
  An instruction never adds to \<^verbatim>\<open>gas_left\<close>, and one that charges gas reports a failure
  when the gas does not suffice (it returns \<^verbatim>\<open>SUCCESS\<close> or \<^verbatim>\<open>REVERT\<close> with gas left that is not
  negative, if it started so):
\<close>

definition instructions_charge_gas :: "'a instructions \<Rightarrow> bool" where
  "instructions_charge_gas I \<longleftrightarrow>
     (\<forall>op s. gas_left (state_instr I op s) = gas_left s) \<and>
     (\<forall>op s. gas_left (snd (status_instr I op s)) \<le> gas_left s) \<and>
     (\<forall>op s. 0 \<le> gas_left s
        \<and> (fst (status_instr I op s) = EVMC_SUCCESS \<or> fst (status_instr I op s) = EVMC_REVERT)
        \<longrightarrow> 0 \<le> gas_left (snd (status_instr I op s)))"

text \<open>The base cost of a defined instruction is not negative:\<close>

definition costs_nonnegative ::
    "(uint8 \<Rightarrow> string option) \<Rightarrow> (uint8 \<Rightarrow> evmc_instruction_metrics) \<Rightarrow> bool" where
  "costs_nonnegative instruction_names instruction_metrics \<longleftrightarrow>
     (\<forall>op. instruction_names op \<noteq> None \<longrightarrow> 0 \<le> sint (gas_cost (instruction_metrics op)))"

text \<open>The statuses the spec calls halting errors.\<close>

definition halting_errors :: "evmc_status_code set" where
  "halting_errors =
     {EVMC_OUT_OF_GAS, EVMC_INVALID_INSTRUCTION, EVMC_UNDEFINED_INSTRUCTION,
      EVMC_STACK_UNDERFLOW, EVMC_STACK_OVERFLOW, EVMC_BAD_JUMP_DESTINATION,
      EVMC_INVALID_MEMORY_ACCESS, EVMC_STATIC_MODE_VIOLATION}"

subsection \<open>A small instance\<close>

text \<open>
  Tables and instructions for a few opcodes, with the costs and stack heights of the
  Yellow Paper, to run the interpreter on concrete code.
\<close>

definition example_names :: "uint8 \<Rightarrow> string option" where
  "example_names op =
     (if op = OP_STOP then Some ''STOP'' else if op = OP_ADD then Some ''ADD''
      else if op = OP_POP then Some ''POP'' else if op = OP_JUMP then Some ''JUMP''
      else if op = OP_JUMPI then Some ''JUMPI'' else if op = OP_JUMPDEST then Some ''JUMPDEST''
      else if OP_PUSH1 \<le> op \<and> op \<le> OP_PUSH32 then Some ''PUSH''
      else if op = OP_RETURN then Some ''RETURN'' else if op = OP_REVERT then Some ''REVERT''
      else if op = OP_INVALID then Some ''INVALID'' else None)"

definition example_metrics :: "uint8 \<Rightarrow> evmc_instruction_metrics" where
  "example_metrics op =
     (if op = OP_ADD
        then \<lparr>gas_cost = 3, stack_height_required = 2, stack_height_change = - 1\<rparr>
      else if op = OP_POP
        then \<lparr>gas_cost = 2, stack_height_required = 1, stack_height_change = - 1\<rparr>
      else if op = OP_JUMP
        then \<lparr>gas_cost = 8, stack_height_required = 1, stack_height_change = - 1\<rparr>
      else if op = OP_JUMPI
        then \<lparr>gas_cost = 10, stack_height_required = 2, stack_height_change = - 2\<rparr>
      else if op = OP_JUMPDEST
        then \<lparr>gas_cost = 1, stack_height_required = 0, stack_height_change = 0\<rparr>
      else if OP_PUSH1 \<le> op \<and> op \<le> OP_PUSH32
        then \<lparr>gas_cost = 3, stack_height_required = 0, stack_height_change = 1\<rparr>
      else if op = OP_RETURN \<or> op = OP_REVERT
        then \<lparr>gas_cost = 0, stack_height_required = 2, stack_height_change = - 2\<rparr>
      else \<lparr>gas_cost = 0, stack_height_required = 0, stack_height_change = 0\<rparr>)"

definition example_instructions :: "unit instructions" where
  "example_instructions =
     \<lparr>stack_instr = (\<lambda>op st. if op = OP_ADD
                        then (case st of a # b # rest \<Rightarrow> (a + b) # rest | _ \<Rightarrow> st) else st),
      state_instr = (\<lambda>op s. s),
      status_instr = (\<lambda>op s. (EVMC_SUCCESS, s))\<rparr>"

definition example_state :: "uint8 list \<Rightarrow> int \<Rightarrow> evm_stack \<Rightarrow> ExecutionState" where
  "example_state cd g st =
     \<lparr>gas_left = g, stack = st, memory = [], code = cd,
      output_offset = 0, output_size = 0, status = EVMC_SUCCESS\<rparr>"

section \<open>Properties\<close>

subsection \<open>The jump-destination map\<close>

lemma jumpdest_loop_end: "\<not> i < length cd \<Longrightarrow> jumpdest_loop cd i m = m"
  by (subst jumpdest_loop.simps) simp

lemma jumpdest_loop_step:
  assumes "i < length cd"
  shows "jumpdest_loop cd i m
         = jumpdest_loop cd (i + 1 + immediate_size (cd ! i))
             (if cd ! i = OP_JUMPDEST then m[i := True] else m)"
proof -
  have push: "unat (cd ! i) - unat OP_PUSH1 + 1 = unat (cd ! i) - 95"
    if "OP_PUSH1 \<le> cd ! i" using that by (simp add: word_le_nat_alt)
  show ?thesis
    using assms push
    by (subst jumpdest_loop.simps) (simp add: Let_def immediate_size_def)
qed

lemma jumpdest_loop_length: "length (jumpdest_loop cd i m) = length m"
proof (induction "length cd - i" arbitrary: i m rule: less_induct)
  case less
  show ?case
  proof (cases "i < length cd")
    case True
    then have "length cd - (i + 1 + immediate_size (cd ! i)) < length cd - i" by simp
    from less [OF this] show ?thesis by (simp add: jumpdest_loop_step [OF True])
  next
    case False
    then show ?thesis by (simp add: jumpdest_loop_end)
  qed
qed

lemma jumpdest_loop_below: "k < i \<Longrightarrow> jumpdest_loop cd i m ! k = m ! k"
proof (induction "length cd - i" arbitrary: i m rule: less_induct)
  case less
  show ?case
  proof (cases "i < length cd")
    case True
    then have "length cd - (i + 1 + immediate_size (cd ! i)) < length cd - i" by simp
    from less(1) [OF this] less(2) show ?thesis by (simp add: jumpdest_loop_step [OF True])
  next
    case False
    then show ?thesis by (simp add: jumpdest_loop_end)
  qed
qed

lemma starts_ge: "k \<in> instruction_starts cd s \<Longrightarrow> s \<le> k"
  by (induction rule: instruction_starts.induct) auto

lemma starts_shift:
  assumes "k \<in> instruction_starts cd s" "s < k"
  shows "k \<in> instruction_starts cd (s + 1 + immediate_size (cd ! s))"
  using assms
proof (induction rule: instruction_starts.induct)
  case first
  then show ?case by simp
next
  case (skip k)
  show ?case
  proof (cases "k = s")
    case True
    then show ?thesis by (simp add: instruction_starts.first)
  next
    case False
    with skip(1) have "s < k" using starts_ge by fastforce
    then show ?thesis
      using skip instruction_starts.skip [of k cd "s + 1 + immediate_size (cd ! s)"] by simp
  qed
qed

lemma starts_unshift:
  assumes "k \<in> instruction_starts cd (s + 1 + immediate_size (cd ! s))" "s < length cd"
  shows "k \<in> instruction_starts cd s"
  using assms
proof (induction rule: instruction_starts.induct)
  case first
  then show ?case
    using instruction_starts.skip [OF instruction_starts.first, of s cd] by simp
next
  case (skip k)
  then show ?case using instruction_starts.skip [of k cd s] by simp
qed

lemma starts_from:
  assumes "j \<in> instruction_starts cd 0" "k \<in> instruction_starts cd 0" "j < k"
  shows "k \<in> instruction_starts cd j"
  using assms
proof (induction rule: instruction_starts.induct)
  case first
  then show ?case by simp
next
  case (skip j)
  have "j < k" using skip by simp
  then have "k \<in> instruction_starts cd j" using skip by simp
  then show ?case using \<open>j < k\<close> by (rule starts_shift)
qed

lemma starts_gap:
  assumes "j \<in> instruction_starts cd 0" "k \<in> instruction_starts cd 0" "j < k"
  shows "j + 1 + immediate_size (cd ! j) \<le> k"
  using starts_ge [OF starts_shift [OF starts_from [OF assms] assms(3)]] .

lemma jumpdest_loop_at:
  assumes "i \<le> k" "k < length cd" "length m = length cd"
  shows "jumpdest_loop cd i m ! k
           = (m ! k \<or> (k \<in> instruction_starts cd i \<and> cd ! k = OP_JUMPDEST))"
  using assms
proof (induction "length cd - i" arbitrary: i m rule: less_induct)
  case less
  let ?n = "i + 1 + immediate_size (cd ! i)"
  let ?m = "if cd ! i = OP_JUMPDEST then m[i := True] else m"
  have i: "i < length cd" using less.prems by simp
  have step: "jumpdest_loop cd i m ! k = jumpdest_loop cd ?n ?m ! k"
    by (simp only: jumpdest_loop_step [OF i])
  show ?case
  proof (cases "k < ?n")
    case True
    have notin: "k \<notin> instruction_starts cd i" if "k \<noteq> i"
    proof
      assume "k \<in> instruction_starts cd i"
      moreover have "i < k" using that less.prems by simp
      ultimately have "?n \<le> k" using starts_shift starts_ge by blast
      then show False using True by simp
    qed
    have "jumpdest_loop cd ?n ?m ! k = ?m ! k"
      using True by (rule jumpdest_loop_below)
    also have "\<dots> = (m ! k \<or> (k \<in> instruction_starts cd i \<and> cd ! k = OP_JUMPDEST))"
      using notin i less.prems(3) by (cases "k = i") (auto simp: instruction_starts.first)
    finally show ?thesis using step by simp
  next
    case False
    then have ge: "?n \<le> k" by simp
    have mem: "k \<in> instruction_starts cd i \<longleftrightarrow> k \<in> instruction_starts cd ?n"
      using starts_shift [of k cd i] starts_unshift [of k cd i] i ge by auto
    have ki: "k \<noteq> i" using ge by simp
    have "length cd - ?n < length cd - i" using i by simp
    from less.hyps [OF this ge less.prems(2), of ?m] less.prems(3)
    have "jumpdest_loop cd ?n ?m ! k
          = (?m ! k \<or> (k \<in> instruction_starts cd ?n \<and> cd ! k = OP_JUMPDEST))"
      by simp
    then show ?thesis using step mem ki by simp
  qed
qed

lemma starts_iff_not_push_data:
  assumes "i < length cd"
  shows "i \<in> instruction_starts cd 0 \<longleftrightarrow> \<not> in_push_data cd i"
proof
  assume i: "i \<in> instruction_starts cd 0"
  show "\<not> in_push_data cd i"
  proof
    assume "in_push_data cd i"
    then obtain j where j: "j \<in> instruction_starts cd 0" "j < i" "i \<le> j + immediate_size (cd ! j)"
      by (auto simp: in_push_data_def)
    from starts_gap [OF j(1) i j(2)] j(3) show False by simp
  qed
next
  assume np: "\<not> in_push_data cd i"
  have "\<forall>k \<le> i. k \<in> instruction_starts cd 0 \<longrightarrow> (\<exists>j \<in> instruction_starts cd 0. j \<le> i \<and> i < j + 1 + immediate_size (cd ! j))"
  proof (intro allI impI)
    fix k assume "k \<le> i" "k \<in> instruction_starts cd 0"
    then show "\<exists>j \<in> instruction_starts cd 0. j \<le> i \<and> i < j + 1 + immediate_size (cd ! j)"
    proof (induction "i - k" arbitrary: k rule: less_induct)
      case less
      show ?case
      proof (cases "i < k + 1 + immediate_size (cd ! k)")
        case True
        then show ?thesis using less.prems by blast
      next
        case False
        have "k < length cd" using less.prems assms by simp
        then have "k + 1 + immediate_size (cd ! k) \<in> instruction_starts cd 0"
          using less.prems instruction_starts.skip [of k cd 0] by simp
        moreover have "i - (k + 1 + immediate_size (cd ! k)) < i - k" using False by simp
        ultimately show ?thesis using less.hyps False by simp
      qed
    qed
  qed
  then obtain j where j: "j \<in> instruction_starts cd 0" "j \<le> i" "i < j + 1 + immediate_size (cd ! j)"
    using instruction_starts.first [of 0 cd] by blast
  show "i \<in> instruction_starts cd 0"
  proof (cases "j = i")
    case True
    then show ?thesis using j by simp
  next
    case False
    then have lt: "j < i" using j by simp
    then have pos: "immediate_size (cd ! j) \<noteq> 0" using j by simp
    then have "OP_PUSH1 \<le> cd ! j \<and> cd ! j \<le> OP_PUSH32"
      by (simp add: immediate_size_def split: if_splits)
    then have "in_push_data cd i"
      unfolding in_push_data_def using j lt assms by (intro bexI [of _ j]) auto
    then show ?thesis using np by simp
  qed
qed

lemma build_jumpdest_map_at:
  assumes "i < length cd"
  shows "build_jumpdest_map cd ! i \<longleftrightarrow> cd ! i = OP_JUMPDEST \<and> \<not> in_push_data cd i"
  using assms jumpdest_loop_at [of 0 i cd "replicate (length cd) False"]
  by (auto simp: build_jumpdest_map_def starts_iff_not_push_data)


lemma to_size_t_small: "unat x \<le> size_t_max \<Longrightarrow> to_size_t x = unat x"
  by (simp add: to_size_t_def size_t_max_def)

lemma op_jump_cons:
  assumes "stack s = dst # rest" "length jm \<le> size_t_max"
  shows "op_jump s jm =
           (if unat dst < length jm \<and> jm ! unat dst
            then Some (unat dst, s\<lparr>stack := rest\<rparr>)
            else Some (length (code s), s\<lparr>stack := rest, status := EVMC_BAD_JUMP_DESTINATION\<rparr>))"
proof (cases "unat dst < length jm")
  case True
  then have "to_size_t dst = unat dst" using assms(2) by (simp add: to_size_t_small)
  then show ?thesis using assms(1) True by (simp add: op_jump_def stack_pop_def)
next
  case False
  then show ?thesis using assms(1) by (simp add: op_jump_def stack_pop_def)
qed

text \<open>
  C3. The map built by \<^verbatim>\<open>build_jumpdest_map\<close> has one bit for each byte of the code; bit
  \<open>i\<close> is set iff byte \<open>i\<close> is \<^verbatim>\<open>JUMPDEST\<close> and does not lie inside the immediate data of
  a preceding push instruction. \<^verbatim>\<open>op_jump\<close> accepts the popped target \<open>dst\<close> iff
  \<open>dst < code_size\<close> and the bit at \<open>dst\<close> is set; otherwise, and so for \<open>dst = code_size\<close>,
  it sets \<^verbatim>\<open>BAD_JUMP_DESTINATION\<close>. (\<^verbatim>\<open>code_size\<close> is a \<^verbatim>\<open>size_t\<close>.)
\<close>

theorem jumpdest_map_valid_targets:
  assumes "length cd \<le> size_t_max"
  shows "length (build_jumpdest_map cd) = length cd
    \<and> (\<forall>i < length cd. build_jumpdest_map cd ! i
          \<longleftrightarrow> cd ! i = OP_JUMPDEST \<and> \<not> in_push_data cd i)
    \<and> (\<forall>(s :: 'a ExecutionState_scheme) dst rest. stack s = dst # rest \<and> code s = cd \<longrightarrow>
          op_jump s (build_jumpdest_map cd) =
            (if unat dst < length cd \<and> build_jumpdest_map cd ! unat dst
             then Some (unat dst, s\<lparr>stack := rest\<rparr>)
             else Some (length cd, s\<lparr>stack := rest, status := EVMC_BAD_JUMP_DESTINATION\<rparr>)))
    \<and> (\<forall>(s :: 'a ExecutionState_scheme) dst rest.
          stack s = dst # rest \<and> code s = cd \<and> unat dst = length cd \<longrightarrow>
          op_jump s (build_jumpdest_map cd) =
            Some (length cd, s\<lparr>stack := rest, status := EVMC_BAD_JUMP_DESTINATION\<rparr>))"
proof -
  have len: "length (build_jumpdest_map cd) = length cd"
    by (simp add: build_jumpdest_map_def jumpdest_loop_length)
  have jump: "op_jump s (build_jumpdest_map cd) =
            (if unat dst < length cd \<and> build_jumpdest_map cd ! unat dst
             then Some (unat dst, s\<lparr>stack := rest\<rparr>)
             else Some (length cd, s\<lparr>stack := rest, status := EVMC_BAD_JUMP_DESTINATION\<rparr>))"
    if "stack s = dst # rest" "code s = cd" for s :: "'a ExecutionState_scheme" and dst rest
    using op_jump_cons [of s dst rest "build_jumpdest_map cd"] that assms len by simp
  show ?thesis
    using len build_jumpdest_map_at [of _ cd] jump by simp
qed

theorem jumpdest_map_valid_targets_witness:
  "length [OP_PUSH1, OP_JUMPDEST, OP_JUMPDEST] \<le> size_t_max
   \<and> build_jumpdest_map [OP_PUSH1, OP_JUMPDEST, OP_JUMPDEST] = [False, False, True]
   \<and> in_push_data [OP_PUSH1, OP_JUMPDEST, OP_JUMPDEST] 1
   \<and> \<not> in_push_data [OP_PUSH1, OP_JUMPDEST, OP_JUMPDEST] 2
   \<and> op_jump (example_state [OP_PUSH1, OP_JUMPDEST, OP_JUMPDEST] 10 [2])
        (build_jumpdest_map [OP_PUSH1, OP_JUMPDEST, OP_JUMPDEST])
      = Some (2, example_state [OP_PUSH1, OP_JUMPDEST, OP_JUMPDEST] 10 [])
   \<and> op_jump (example_state [OP_PUSH1, OP_JUMPDEST, OP_JUMPDEST] 10 [3])
        (build_jumpdest_map [OP_PUSH1, OP_JUMPDEST, OP_JUMPDEST])
      = Some (3, (example_state [OP_PUSH1, OP_JUMPDEST, OP_JUMPDEST] 10 [])
                   \<lparr>status := EVMC_BAD_JUMP_DESTINATION\<rparr>)"
proof -
  let ?cd = "[OP_PUSH1, OP_JUMPDEST, OP_JUMPDEST]"
  have small: "length ?cd \<le> size_t_max" by (simp add: size_t_max_def)
  have m: "build_jumpdest_map ?cd = [False, False, True]"
    by (simp add: build_jumpdest_map_def jumpdest_loop.simps)
  note t = jumpdest_map_valid_targets [OF small]
  from t have bits: "\<forall>i < length ?cd. build_jumpdest_map ?cd ! i
          \<longleftrightarrow> ?cd ! i = OP_JUMPDEST \<and> \<not> in_push_data ?cd i" by blast
  from bits [rule_format, of 1] m have d1: "in_push_data ?cd 1" by simp
  from bits [rule_format, of 2] m have d2: "\<not> in_push_data ?cd 2" by simp
  from t have j: "\<forall>(s :: ExecutionState) dst rest. stack s = dst # rest \<and> code s = ?cd \<longrightarrow>
          op_jump s (build_jumpdest_map ?cd) =
            (if unat dst < length ?cd \<and> build_jumpdest_map ?cd ! unat dst
             then Some (unat dst, s\<lparr>stack := rest\<rparr>)
             else Some (length ?cd, s\<lparr>stack := rest, status := EVMC_BAD_JUMP_DESTINATION\<rparr>))"
    by blast
  from j [rule_format, of "example_state ?cd 10 [2]" 2 "[]"] m
  have j2: "op_jump (example_state ?cd 10 [2]) (build_jumpdest_map ?cd)
      = Some (2, example_state ?cd 10 [])"
    by (simp add: example_state_def)
  from j [rule_format, of "example_state ?cd 10 [3]" 3 "[]"] m
  have j3: "op_jump (example_state ?cd 10 [3]) (build_jumpdest_map ?cd)
      = Some (3, (example_state ?cd 10 [])\<lparr>status := EVMC_BAD_JUMP_DESTINATION\<rparr>)"
    by (simp add: example_state_def)
  show ?thesis using small m d1 d2 j2 j3 by simp
qed

subsection \<open>One pass through the loop\<close>

lemma loop_end: "baseline_execute_loop n m I jm cd ce ce s = Some s"
  by (subst baseline_execute_loop.simps) simp

lemma loop_exit:
  assumes "pc < ce" "loop_body n m I jm cd ce pc s = Some (Exit s')"
  shows "baseline_execute_loop n m I jm cd ce pc s = Some s'"
  using assms by (subst baseline_execute_loop.simps) simp

lemma loop_continue:
  assumes "pc < ce" "loop_body n m I jm cd ce pc s = Some (Continue pc' s')"
  shows "baseline_execute_loop n m I jm cd ce pc s = baseline_execute_loop n m I jm cd ce pc' s'"
  using assms by (subst baseline_execute_loop.simps) simp

lemma int64_t_id: "- (2 ^ 63) \<le> x \<Longrightarrow> x < 2 ^ 63 \<Longrightarrow> int64_t x = x"
  by (simp add: int64_t_def)

lemma int64_t_le: "- (2 ^ 63) \<le> x \<Longrightarrow> int64_t x \<le> x"
proof -
  assume "- (2 ^ 63) \<le> x"
  then have "0 \<le> x + 2 ^ 63" by simp
  then have "(x + 2 ^ 63) mod 2 ^ 64 \<le> x + 2 ^ 63" by (rule zmod_le_nonneg_dividend)
  then show ?thesis by (simp add: int64_t_def)
qed

lemma check_requirements_cases:
  assumes "s1 = s\<lparr>gas_left := int64_t (gas_left s - sint (gas_cost (m op)))\<rparr>"
  shows "check_requirements n m s op =
     (if n op = None then (EVMC_UNDEFINED_INSTRUCTION, s)
      else if int64_t (gas_left s - sint (gas_cost (m op))) < 0 then (EVMC_OUT_OF_GAS, s1)
      else if int (length (stack s)) < stack_height_required (m op) then (EVMC_STACK_UNDERFLOW, s1)
      else if 1024 < int (length (stack s)) + stack_height_change (m op)
        then (EVMC_STACK_OVERFLOW, s1)
      else (EVMC_SUCCESS, s1))"
  using assms by (simp add: check_requirements_def Let_def limit_def)

text \<open>
  C2. For the opcode fetched at \<^verbatim>\<open>pc\<close>, the checks come in this order and the first that
  fails ends the frame with its status: undefined instruction (gas untouched), out of gas
  (after the base cost is deducted from \<^verbatim>\<open>gas_left\<close>, when the result is negative), stack
  underflow, stack overflow. When all pass, the switch runs on the state with the base cost
  deducted. The deduction is the subtraction of \<^verbatim>\<open>int64_t\<close>: it is the exact difference
  whenever that lies in the range of \<^verbatim>\<open>int64_t\<close>. Gas equal to the base cost passes the gas
  check and leaves \<^verbatim>\<open>gas_left = 0\<close>.
\<close>

theorem check_requirements_order:
  fixes s :: "'a ExecutionState_scheme"
  assumes "pc < length cd" "op = cd ! pc" "c = sint (gas_cost (m op))"
    "g = int64_t (gas_left s - c)" "s1 = s\<lparr>gas_left := g\<rparr>" "h = int (length (stack s))"
  shows
    "(n op = None \<longrightarrow>
        check_requirements n m s op = (EVMC_UNDEFINED_INSTRUCTION, s) \<and>
        baseline_execute_loop n m I jm cd (length cd) pc s
          = Some (s\<lparr>status := EVMC_UNDEFINED_INSTRUCTION\<rparr>))
     \<and> (n op \<noteq> None \<and> g < 0 \<longrightarrow>
        check_requirements n m s op = (EVMC_OUT_OF_GAS, s1) \<and>
        baseline_execute_loop n m I jm cd (length cd) pc s = Some (s1\<lparr>status := EVMC_OUT_OF_GAS\<rparr>))
     \<and> (n op \<noteq> None \<and> 0 \<le> g \<and> h < stack_height_required (m op) \<longrightarrow>
        check_requirements n m s op = (EVMC_STACK_UNDERFLOW, s1) \<and>
        baseline_execute_loop n m I jm cd (length cd) pc s
          = Some (s1\<lparr>status := EVMC_STACK_UNDERFLOW\<rparr>))
     \<and> (n op \<noteq> None \<and> 0 \<le> g \<and> stack_height_required (m op) \<le> h
          \<and> 1024 < h + stack_height_change (m op) \<longrightarrow>
        check_requirements n m s op = (EVMC_STACK_OVERFLOW, s1) \<and>
        baseline_execute_loop n m I jm cd (length cd) pc s
          = Some (s1\<lparr>status := EVMC_STACK_OVERFLOW\<rparr>))
     \<and> (n op \<noteq> None \<and> 0 \<le> g \<and> stack_height_required (m op) \<le> h
          \<and> h + stack_height_change (m op) \<le> 1024 \<longrightarrow>
        check_requirements n m s op = (EVMC_SUCCESS, s1) \<and>
        loop_body n m I jm cd (length cd) pc s = dispatch I jm cd (length cd) pc s1 op)
     \<and> (- (2 ^ 63) \<le> gas_left s - c \<and> gas_left s - c < 2 ^ 63 \<longrightarrow> g = gas_left s - c)
     \<and> (n op \<noteq> None \<and> gas_left s = c \<longrightarrow>
        fst (check_requirements n m s op) \<noteq> EVMC_OUT_OF_GAS \<and>
        gas_left (snd (check_requirements n m s op)) = 0)"
proof -
  have cr: "check_requirements n m s op =
     (if n op = None then (EVMC_UNDEFINED_INSTRUCTION, s)
      else if g < 0 then (EVMC_OUT_OF_GAS, s1)
      else if h < stack_height_required (m op) then (EVMC_STACK_UNDERFLOW, s1)
      else if 1024 < h + stack_height_change (m op) then (EVMC_STACK_OVERFLOW, s1)
      else (EVMC_SUCCESS, s1))"
    using check_requirements_cases [of s1 s m op n] assms(3,4,5,6) by simp
  have exact: "g = gas_left s - c" if "- (2 ^ 63) \<le> gas_left s - c" "gas_left s - c < 2 ^ 63"
    using that assms(4) by (simp add: int64_t_id)
  have zero: "g = 0" if "gas_left s = c"
    using that assms(4) by (simp add: int64_t_def)
  have body: "loop_body n m I jm cd (length cd) pc s =
       (if fst (check_requirements n m s op) \<noteq> EVMC_SUCCESS
        then Some (Exit ((snd (check_requirements n m s op))
                     \<lparr>status := fst (check_requirements n m s op)\<rparr>))
        else dispatch I jm cd (length cd) pc (snd (check_requirements n m s op)) op)"
    using assms(2) by (simp add: loop_body_def Let_def split: prod.splits)
  have ex: "baseline_execute_loop n m I jm cd (length cd) pc s
            = Some ((snd (check_requirements n m s op))\<lparr>status := fst (check_requirements n m s op)\<rparr>)"
    if "fst (check_requirements n m s op) \<noteq> EVMC_SUCCESS"
    using that body assms(1) by (intro loop_exit) simp_all
  have undefined: ?thesis if "n op = None"
    using that cr ex exact by simp
  have defined: ?thesis if d: "n op \<noteq> None"
  proof -
    consider (oog) "g < 0"
      | (under) "0 \<le> g" "h < stack_height_required (m op)"
      | (over) "0 \<le> g" "stack_height_required (m op) \<le> h"
               "1024 < h + stack_height_change (m op)"
      | (ok) "0 \<le> g" "stack_height_required (m op) \<le> h"
             "h + stack_height_change (m op) \<le> 1024"
      by linarith
    then show ?thesis
    proof cases
      case oog
      then have "check_requirements n m s op = (EVMC_OUT_OF_GAS, s1)"
        using d cr by simp
      then show ?thesis using d oog ex exact zero by auto
    next
      case under
      then have "check_requirements n m s op = (EVMC_STACK_UNDERFLOW, s1)"
        using d cr by simp
      then show ?thesis using d under ex exact zero assms(5) by auto
    next
      case over
      then have "check_requirements n m s op = (EVMC_STACK_OVERFLOW, s1)"
        using d cr by simp
      then show ?thesis using d over ex exact zero assms(5) by auto
    next
      case ok
      then have "check_requirements n m s op = (EVMC_SUCCESS, s1)"
        using d cr by simp
      then show ?thesis using d ok body exact zero assms(5) by auto
    qed
  qed
  show ?thesis
  proof (cases "n op = None")
    case True
    then show ?thesis by (rule undefined)
  next
    case False
    then show ?thesis by (rule defined)
  qed
qed

theorem check_requirements_order_witness:
  "baseline_execute_loop example_names example_metrics example_instructions [False] [0x0c] 1 0
      (example_state [0x0c] 5 [])
     = Some ((example_state [0x0c] 5 [])\<lparr>status := EVMC_UNDEFINED_INSTRUCTION\<rparr>)
   \<and> baseline_execute_loop example_names example_metrics example_instructions [False] [OP_ADD] 1 0
      (example_state [OP_ADD] 2 [])
     = Some ((example_state [OP_ADD] (- 1) [])\<lparr>status := EVMC_OUT_OF_GAS\<rparr>)
   \<and> baseline_execute_loop example_names example_metrics example_instructions [False] [OP_ADD] 1 0
      (example_state [OP_ADD] 3 [7])
     = Some ((example_state [OP_ADD] 0 [7])\<lparr>status := EVMC_STACK_UNDERFLOW\<rparr>)
   \<and> baseline_execute_loop example_names example_metrics example_instructions [False] [OP_PUSH1] 1 0
      (example_state [OP_PUSH1] 4 (replicate 1024 0))
     = Some ((example_state [OP_PUSH1] 1 (replicate 1024 0))\<lparr>status := EVMC_STACK_OVERFLOW\<rparr>)
   \<and> check_requirements example_names example_metrics (example_state [OP_JUMPDEST] 1 []) OP_JUMPDEST
     = (EVMC_SUCCESS, example_state [OP_JUMPDEST] 0 [])
   \<and> check_requirements example_names example_metrics
        (example_state [OP_JUMPDEST] (- 9223372036854775808) []) OP_JUMPDEST
     = (EVMC_SUCCESS, example_state [OP_JUMPDEST] 9223372036854775807 [])"
proof -
  note t = check_requirements_order [where n = example_names and m = example_metrics
      and I = example_instructions and jm = "[False]" and pc = 0, OF _ refl refl refl refl refl]
  have 1: "baseline_execute_loop example_names example_metrics example_instructions [False] [0x0c] 1 0
      (example_state [0x0c] 5 [])
     = Some ((example_state [0x0c] 5 [])\<lparr>status := EVMC_UNDEFINED_INSTRUCTION\<rparr>)"
    using t [of "[0x0c]" "example_state [0x0c] 5 []"]
    by (simp add: example_names_def)
  have 2: "baseline_execute_loop example_names example_metrics example_instructions [False] [OP_ADD] 1 0
      (example_state [OP_ADD] 2 [])
     = Some ((example_state [OP_ADD] (- 1) [])\<lparr>status := EVMC_OUT_OF_GAS\<rparr>)"
    using t [of "[OP_ADD]" "example_state [OP_ADD] 2 []"]
    by (simp add: example_names_def example_metrics_def example_state_def int64_t_def)
  have 3: "baseline_execute_loop example_names example_metrics example_instructions [False] [OP_ADD] 1 0
      (example_state [OP_ADD] 3 [7])
     = Some ((example_state [OP_ADD] 0 [7])\<lparr>status := EVMC_STACK_UNDERFLOW\<rparr>)"
    using t [of "[OP_ADD]" "example_state [OP_ADD] 3 [7]"]
    by (simp add: example_names_def example_metrics_def example_state_def int64_t_def)
  have 4: "baseline_execute_loop example_names example_metrics example_instructions [False] [OP_PUSH1] 1 0
      (example_state [OP_PUSH1] 4 (replicate 1024 0))
     = Some ((example_state [OP_PUSH1] 1 (replicate 1024 0))\<lparr>status := EVMC_STACK_OVERFLOW\<rparr>)"
    using t [of "[OP_PUSH1]" "example_state [OP_PUSH1] 4 (replicate 1024 0)"]
    by (simp add: example_names_def example_metrics_def example_state_def int64_t_def)
  have 5: "check_requirements example_names example_metrics (example_state [OP_JUMPDEST] 1 []) OP_JUMPDEST
     = (EVMC_SUCCESS, example_state [OP_JUMPDEST] 0 [])"
    using t [of "[OP_JUMPDEST]" "example_state [OP_JUMPDEST] 1 []"]
    by (simp add: example_names_def example_metrics_def example_state_def int64_t_def)
  have 6: "check_requirements example_names example_metrics
        (example_state [OP_JUMPDEST] (- 9223372036854775808) []) OP_JUMPDEST
     = (EVMC_SUCCESS, example_state [OP_JUMPDEST] 9223372036854775807 [])"
    using t [of "[OP_JUMPDEST]" "example_state [OP_JUMPDEST] (- 9223372036854775808) []"]
    by (simp add: example_names_def example_metrics_def example_state_def int64_t_def)
  show ?thesis using 1 2 3 4 5 6 by simp
qed

subsection \<open>Push instructions\<close>


lemma be_load_foldl:
  "foldl (\<lambda>acc b. acc * 256 + ucast b) (of_nat a :: uint256) bs
   = of_nat (foldl (\<lambda>acc (b :: uint8). acc * 256 + unat b) a bs)"
proof (induction bs arbitrary: a)
  case Nil
  show ?case by simp
next
  case (Cons b bs)
  have "(of_nat a :: uint256) * 256 + ucast b = of_nat (a * 256 + unat b)"
    by simp
  then show ?case using Cons [of "a * 256 + unat b"] by simp
qed

lemma be_load_of_nat: "be_load bs = of_nat (be_nat bs)"
  using be_load_foldl [of 0 bs] by (simp add: be_load_def be_nat_def)

lemma be_nat_foldl_bound:
  "foldl (\<lambda>acc (b :: uint8). acc * 256 + unat b) a bs < (a + 1) * 256 ^ length bs"
proof (induction bs arbitrary: a)
  case Nil
  show ?case by simp
next
  case (Cons b bs)
  let ?f = "\<lambda>acc (b :: uint8). acc * 256 + unat b"
  have "unat b < 256" using unsigned_less [of b, where ?'a = nat] by simp
  then have "a * 256 + unat b + 1 \<le> (a + 1) * 256" by simp
  then have le: "(a * 256 + unat b + 1) * 256 ^ length bs \<le> ((a + 1) * 256) * 256 ^ length bs"
    by (rule mult_le_mono1)
  have "foldl ?f a (b # bs) = foldl ?f (a * 256 + unat b) bs" by simp
  also have "\<dots> < (a * 256 + unat b + 1) * 256 ^ length bs" by (rule Cons)
  also note le
  also have "((a + 1) * 256) * 256 ^ length bs = (a + 1) * 256 ^ length (b # bs)"
    by (simp add: algebra_simps)
  finally show ?case .
qed

lemma be_nat_bound: "be_nat bs < 256 ^ length bs"
  using be_nat_foldl_bound [of 0 bs] by (simp add: be_nat_def)

lemma unat_be_load:
  assumes "length bs \<le> 32"
  shows "unat (be_load bs) = be_nat bs"
proof -
  have "(256 :: nat) ^ length bs \<le> 256 ^ 32"
    using assms by (intro power_increasing) simp_all
  also have "(256 :: nat) ^ 32 = 2 ^ 256" by simp
  finally have "be_nat bs < 2 ^ 256" using be_nat_bound [of bs] by simp
  then show ?thesis by (simp add: be_load_of_nat unat_of_nat)
qed

lemma push_dispatch:
  assumes "OP_PUSH1 \<le> op" "op \<le> OP_PUSH32"
  shows "dispatch I jm cd ce pc s op =
           do {
             (pc', s1) \<leftarrow> load_push (unat op - unat OP_PUSH1 + 1) s cd (pc + 1) ce;
             Some (Continue pc' s1)
           }"
  using assms
  by (auto simp: dispatch_def stack_opcodes_def status_opcodes_def state_opcodes_def
        word_le_nat_alt)

lemma load_push_cases:
  assumes "length (stack s) < limit"
  shows "load_push n s cd p ce =
           (if ce < p + n then Some (ce, s)
            else Some (p + n, s\<lparr>stack := be_load (take n (drop p cd)) # stack s\<rparr>))"
  using assms by (simp add: load_push_def stack_push_def Let_def)

text \<open>
  C4 (amended). A \<^verbatim>\<open>PUSHn\<close> whose \<open>n\<close> immediate bytes all lie inside the code reads the
  \<open>n\<close> bytes that start at \<open>pc + 1\<close>, pushes the number they denote big-endian and goes on
  at \<open>pc + 1 + n\<close>. If the immediate runs past the end of the code, nothing is pushed and
  \<^verbatim>\<open>pc\<close> is set to \<^verbatim>\<open>code_end\<close>, where the loop ends with the state as it is.
\<close>

theorem push_immediate:
  fixes s :: "'a ExecutionState_scheme"
  assumes "OP_PUSH1 \<le> op" "op \<le> OP_PUSH32" "k = unat op - unat OP_PUSH1 + 1"
    "length (stack s) < limit"
  shows
    "(pc + 1 + k \<le> length cd \<longrightarrow>
        dispatch I jm cd (length cd) pc s op
          = Some (Continue (pc + 1 + k)
                    (s\<lparr>stack := be_load (take k (drop (pc + 1) cd)) # stack s\<rparr>))
        \<and> length (take k (drop (pc + 1) cd)) = k
        \<and> unat (be_load (take k (drop (pc + 1) cd))) = be_nat (take k (drop (pc + 1) cd)))
     \<and> (length cd < pc + 1 + k \<longrightarrow>
        dispatch I jm cd (length cd) pc s op = Some (Continue (length cd) s)
        \<and> baseline_execute_loop n m I jm cd (length cd) (length cd) s = Some s)"
proof -
  have k32: "k \<le> 32" using assms(1,2,3) by (simp add: word_le_nat_alt)
  have d: "dispatch I jm cd (length cd) pc s op =
           (if length cd < pc + 1 + k then Some (Continue (length cd) s)
            else Some (Continue (pc + 1 + k)
                         (s\<lparr>stack := be_load (take k (drop (pc + 1) cd)) # stack s\<rparr>)))"
    using assms(3) by (simp add: push_dispatch [OF assms(1,2)] load_push_cases [OF assms(4)])
  have len: "length (take k (drop (pc + 1) cd)) = k" if "pc + 1 + k \<le> length cd"
    using that by simp
  have "unat (be_load (take k (drop (pc + 1) cd))) = be_nat (take k (drop (pc + 1) cd))"
    using k32 by (intro unat_be_load) simp
  then show ?thesis using d len loop_end [of n m I jm cd "length cd" s] by simp
qed

theorem push_immediate_witness:
  "dispatch example_instructions [False, False, False] [0x61, 0x12, 0x34] 3 0
     (example_state [0x61, 0x12, 0x34] 10 []) 0x61
   = Some (Continue 3 (example_state [0x61, 0x12, 0x34] 10 [0x1234]))
   \<and> be_nat [0x12, 0x34] = 0x1234"
proof -
  let ?cd = "[0x61, 0x12, 0x34] :: uint8 list"
  have "OP_PUSH1 \<le> (0x61 :: uint8)" "(0x61 :: uint8) \<le> OP_PUSH32"
    "(2 :: nat) = unat (0x61 :: uint8) - unat OP_PUSH1 + 1"
    "length (stack (example_state ?cd 10 [])) < limit"
    by (simp_all add: example_state_def limit_def)
  from push_immediate [OF this, of 0 ?cd example_instructions "[False, False, False]"]
  show ?thesis by (simp add: be_load_def be_nat_def example_state_def numeral_3_eq_3)
qed

theorem push_trimmed_counterexample:
  "load_push 2 (example_state [0x61, 0xab] 10 []) [0x61, 0xab] 1 2
     = Some (2, example_state [0x61, 0xab] 10 [])
   \<and> dispatch example_instructions [False, False] [0x61, 0xab] 2 0
         (example_state [0x61, 0xab] 10 []) 0x61
     = Some (Continue 2 (example_state [0x61, 0xab] 10 []))
   \<and> stack (example_state [0x61, 0xab] 10 []) \<noteq> [0xab00]"
  by (simp add: dispatch_def stack_opcodes_def status_opcodes_def state_opcodes_def
        load_push_def example_state_def)

subsection \<open>Jumps\<close>

lemma op_jump_cases:
  assumes "stack s = dst # rest"
  shows "op_jump s jm =
           (if unat dst < length jm \<and> jm ! to_size_t dst
            then Some (to_size_t dst, s\<lparr>stack := rest\<rparr>)
            else Some (length (code s), s\<lparr>stack := rest, status := EVMC_BAD_JUMP_DESTINATION\<rparr>))"
  using assms by (auto simp: op_jump_def stack_pop_def)

lemma dispatch_jump:
  "dispatch I jm cd ce pc s OP_JUMP =
     do { (pc', s1) \<leftarrow> op_jump s jm; Some (Continue pc' s1) }"
  by (simp add: dispatch_def stack_opcodes_def status_opcodes_def state_opcodes_def)

lemma dispatch_jumpi:
  "dispatch I jm cd ce pc s OP_JUMPI =
     do {
       cond \<leftarrow> stack_at (stack s) 1;
       (pc', s1) \<leftarrow>
         (if cond \<noteq> 0 then op_jump s jm
          else do { (_, st) \<leftarrow> stack_pop (stack s); Some (pc + 1, s\<lparr>stack := st\<rparr>) });
       (_, st) \<leftarrow> stack_pop (stack s1);
       Some (Continue pc' (s1\<lparr>stack := st\<rparr>))
     }"
  by (simp add: dispatch_def stack_opcodes_def status_opcodes_def state_opcodes_def)

lemma dispatch_pop:
  "dispatch I jm cd ce pc s OP_POP =
     do { st \<leftarrow> pop (stack s); Some (Continue (pc + 1) (s\<lparr>stack := st\<rparr>)) }"
  by (simp add: dispatch_def stack_opcodes_def status_opcodes_def state_opcodes_def)

lemma dispatch_jumpi_cases:
  assumes "stack s = dst # cond # rest"
  shows "dispatch I jm cd ce pc s OP_JUMPI =
           (if cond = 0 then Some (Continue (pc + 1) (s\<lparr>stack := rest\<rparr>))
            else if unat dst < length jm \<and> jm ! to_size_t dst
              then Some (Continue (to_size_t dst) (s\<lparr>stack := rest\<rparr>))
            else Some (Continue (length (code s))
                         (s\<lparr>stack := rest, status := EVMC_BAD_JUMP_DESTINATION\<rparr>)))"
  using assms
  by (simp add: dispatch_jumpi op_jump_cases [of s dst "cond # rest"] stack_at_def stack_pop_def)

lemma loop_body_Continue:
  assumes "loop_body n m I jm cd ce pc s = Some (Continue pc' s')"
  shows "n (cd ! pc) \<noteq> None \<and>
         dispatch I jm cd ce pc
           (s\<lparr>gas_left := int64_t (gas_left s - sint (gas_cost (m (cd ! pc))))\<rparr>) (cd ! pc)
           = Some (Continue pc' s')"
  using assms check_requirements_cases [OF refl, of n m s "cd ! pc"]
  by (simp add: loop_body_def Let_def split: prod.splits if_splits)

text \<open>
  C5. \<^verbatim>\<open>JUMPI\<close> pops the destination and the condition. With a condition other than zero
  it goes through \<^verbatim>\<open>op_jump\<close>: to the destination if that is valid, else to \<^verbatim>\<open>code_end\<close> with
  \<^verbatim>\<open>BAD_JUMP_DESTINATION\<close>. With the condition zero it goes on at \<open>pc + 1\<close> whatever the
  destination is, as two \<^verbatim>\<open>POP\<close>s do; a whole pass of the loop for \<^verbatim>\<open>JUMPI\<close> and the two
  passes for \<^verbatim>\<open>POP; POP\<close> then leave states that differ in \<^verbatim>\<open>gas_left\<close> at most.
\<close>

theorem jumpi_semantics:
  fixes s :: "'a ExecutionState_scheme"
  assumes "stack s = dst # cond # rest"
  shows
    "(cond \<noteq> 0 \<and> unat dst < length jm \<and> jm ! to_size_t dst \<longrightarrow>
        dispatch I jm cd ce pc s OP_JUMPI = Some (Continue (to_size_t dst) (s\<lparr>stack := rest\<rparr>)))
     \<and> (cond \<noteq> 0 \<and> \<not> (unat dst < length jm \<and> jm ! to_size_t dst) \<longrightarrow>
        dispatch I jm cd ce pc s OP_JUMPI
          = Some (Continue (length (code s))
                    (s\<lparr>stack := rest, status := EVMC_BAD_JUMP_DESTINATION\<rparr>)))
     \<and> (cond = 0 \<longrightarrow>
        dispatch I jm cd ce pc s OP_JUMPI = Some (Continue (pc + 1) (s\<lparr>stack := rest\<rparr>))
        \<and> dispatch I jm cd ce pc s OP_POP = Some (Continue (pc + 1) (s\<lparr>stack := cond # rest\<rparr>))
        \<and> dispatch I jm cd ce (pc + 1) (s\<lparr>stack := cond # rest\<rparr>) OP_POP
            = Some (Continue (pc + 2) (s\<lparr>stack := rest\<rparr>)))
     \<and> (cond = 0 \<and> cdJ ! pc = OP_JUMPI \<and> cdP ! pc = OP_POP \<and> cdP ! (pc + 1) = OP_POP
          \<and> loop_body n m I jm cdJ ce pc s = Some (Continue pcJ sJ)
          \<and> loop_body n m I jm cdP ce pc s = Some (Continue pc1 s1)
          \<and> loop_body n m I jm cdP ce pc1 s1 = Some (Continue pc2 s2) \<longrightarrow>
        pcJ = pc + 1 \<and> pc2 = pc + 2 \<and> stack sJ = rest \<and> stack s2 = rest
        \<and> memory s2 = memory sJ \<and> status s2 = status sJ
        \<and> s2 = sJ\<lparr>gas_left := gas_left s2\<rparr>)"
proof -
  note j = dispatch_jumpi_cases [OF assms, of I jm cd ce pc]
  have p1: "dispatch I jm cd ce pc s OP_POP = Some (Continue (pc + 1) (s\<lparr>stack := cond # rest\<rparr>))"
    using assms by (simp add: dispatch_pop pop_def stack_pop_def)
  have p2: "dispatch I jm cd ce (pc + 1) (s\<lparr>stack := x # rest\<rparr>) OP_POP
            = Some (Continue (pc + 2) (s\<lparr>stack := rest\<rparr>))" for x
    by (simp add: dispatch_pop pop_def stack_pop_def)
  have whole: "pcJ = pc + 1 \<and> pc2 = pc + 2 \<and> stack sJ = rest \<and> stack s2 = rest
        \<and> memory s2 = memory sJ \<and> status s2 = status sJ
        \<and> s2 = sJ\<lparr>gas_left := gas_left s2\<rparr>"
    if c: "cond = 0" and ops: "cdJ ! pc = OP_JUMPI" "cdP ! pc = OP_POP" "cdP ! (pc + 1) = OP_POP"
      and bJ: "loop_body n m I jm cdJ ce pc s = Some (Continue pcJ sJ)"
      and b1: "loop_body n m I jm cdP ce pc s = Some (Continue pc1 s1)"
      and b2: "loop_body n m I jm cdP ce pc1 s1 = Some (Continue pc2 s2)"
  proof -
    let ?gJ = "int64_t (gas_left s - sint (gas_cost (m OP_JUMPI)))"
    let ?gP = "int64_t (gas_left s - sint (gas_cost (m OP_POP)))"
    let ?gP2 = "int64_t (?gP - sint (gas_cost (m OP_POP)))"
    have "dispatch I jm cdJ ce pc (s\<lparr>gas_left := ?gJ\<rparr>) OP_JUMPI = Some (Continue pcJ sJ)"
      using loop_body_Continue [OF bJ] ops by simp
    moreover have "dispatch I jm cdJ ce pc (s\<lparr>gas_left := ?gJ\<rparr>) OP_JUMPI
        = Some (Continue (pc + 1) (s\<lparr>gas_left := ?gJ, stack := rest\<rparr>))"
      using dispatch_jumpi_cases [of "s\<lparr>gas_left := ?gJ\<rparr>" dst cond rest I jm cdJ ce pc] assms c
      by simp
    ultimately have J: "pcJ = pc + 1" "sJ = s\<lparr>gas_left := ?gJ, stack := rest\<rparr>" by simp_all
    have "dispatch I jm cdP ce pc (s\<lparr>gas_left := ?gP\<rparr>) OP_POP = Some (Continue pc1 s1)"
      using loop_body_Continue [OF b1] ops by simp
    then have P1: "pc1 = pc + 1" "s1 = s\<lparr>gas_left := ?gP, stack := cond # rest\<rparr>"
      using assms by (simp_all add: dispatch_pop pop_def stack_pop_def)
    have "dispatch I jm cdP ce pc1
            (s1\<lparr>gas_left := int64_t (gas_left s1 - sint (gas_cost (m OP_POP)))\<rparr>) OP_POP
          = Some (Continue pc2 s2)"
      using loop_body_Continue [OF b2] ops P1 by simp
    then have P2: "pc2 = pc + 2" "s2 = s\<lparr>gas_left := ?gP2, stack := rest\<rparr>"
      using P1 by (simp_all add: dispatch_pop pop_def stack_pop_def)
    show ?thesis using J P2 by simp
  qed
  have A: "cond \<noteq> 0 \<and> unat dst < length jm \<and> jm ! to_size_t dst \<longrightarrow>
        dispatch I jm cd ce pc s OP_JUMPI = Some (Continue (to_size_t dst) (s\<lparr>stack := rest\<rparr>))"
    using j by simp
  have B: "cond \<noteq> 0 \<and> \<not> (unat dst < length jm \<and> jm ! to_size_t dst) \<longrightarrow>
        dispatch I jm cd ce pc s OP_JUMPI
          = Some (Continue (length (code s))
                    (s\<lparr>stack := rest, status := EVMC_BAD_JUMP_DESTINATION\<rparr>))"
    using j by simp
  have C: "cond = 0 \<longrightarrow>
        dispatch I jm cd ce pc s OP_JUMPI = Some (Continue (pc + 1) (s\<lparr>stack := rest\<rparr>))
        \<and> dispatch I jm cd ce pc s OP_POP = Some (Continue (pc + 1) (s\<lparr>stack := cond # rest\<rparr>))
        \<and> dispatch I jm cd ce (pc + 1) (s\<lparr>stack := cond # rest\<rparr>) OP_POP
            = Some (Continue (pc + 2) (s\<lparr>stack := rest\<rparr>))"
    using j p1 p2 by simp
  have D: "cond = 0 \<and> cdJ ! pc = OP_JUMPI \<and> cdP ! pc = OP_POP \<and> cdP ! (pc + 1) = OP_POP
          \<and> loop_body n m I jm cdJ ce pc s = Some (Continue pcJ sJ)
          \<and> loop_body n m I jm cdP ce pc s = Some (Continue pc1 s1)
          \<and> loop_body n m I jm cdP ce pc1 s1 = Some (Continue pc2 s2) \<longrightarrow>
        pcJ = pc + 1 \<and> pc2 = pc + 2 \<and> stack sJ = rest \<and> stack s2 = rest
        \<and> memory s2 = memory sJ \<and> status s2 = status sJ
        \<and> s2 = sJ\<lparr>gas_left := gas_left s2\<rparr>"
    using whole by blast
  show ?thesis
    apply (intro conjI)
       apply (rule A)
      apply (rule B)
     apply (rule C)
    apply (rule D)
    done
qed

theorem jumpi_semantics_witness:
  "dispatch example_instructions [False, True] [OP_JUMPI, OP_JUMPDEST] 2 0
     (example_state [OP_JUMPI, OP_JUMPDEST] 10 [1, 1, 5]) OP_JUMPI
   = Some (Continue 1 (example_state [OP_JUMPI, OP_JUMPDEST] 10 [5]))
   \<and> dispatch example_instructions [False, True] [OP_JUMPI, OP_JUMPDEST] 2 0
     (example_state [OP_JUMPI, OP_JUMPDEST] 10 [0, 1, 5]) OP_JUMPI
   = Some (Continue 2 ((example_state [OP_JUMPI, OP_JUMPDEST] 10 [5])
                         \<lparr>status := EVMC_BAD_JUMP_DESTINATION\<rparr>))
   \<and> dispatch example_instructions [False, True] [OP_JUMPI, OP_JUMPDEST] 2 0
     (example_state [OP_JUMPI, OP_JUMPDEST] 10 [0, 0, 5]) OP_JUMPI
   = Some (Continue 1 (example_state [OP_JUMPI, OP_JUMPDEST] 10 [5]))"
proof -
  let ?cd = "[OP_JUMPI, OP_JUMPDEST]"
  note t = jumpi_semantics [where I = example_instructions and jm = "[False, True]"
      and cd = ?cd and ce = 2 and pc = 0]
  have 1: "dispatch example_instructions [False, True] ?cd 2 0
     (example_state ?cd 10 [1, 1, 5]) OP_JUMPI
   = Some (Continue 1 (example_state ?cd 10 [5]))"
    using t [of "example_state ?cd 10 [1, 1, 5]" 1 1 "[5]"]
    by (simp add: example_state_def to_size_t_def)
  have 2: "dispatch example_instructions [False, True] ?cd 2 0
     (example_state ?cd 10 [0, 1, 5]) OP_JUMPI
   = Some (Continue 2 ((example_state ?cd 10 [5])\<lparr>status := EVMC_BAD_JUMP_DESTINATION\<rparr>))"
    using t [of "example_state ?cd 10 [0, 1, 5]" 0 1 "[5]"]
    by (simp add: example_state_def to_size_t_def)
  have 3: "dispatch example_instructions [False, True] ?cd 2 0
     (example_state ?cd 10 [0, 0, 5]) OP_JUMPI
   = Some (Continue 1 (example_state ?cd 10 [5]))"
    using t [of "example_state ?cd 10 [0, 0, 5]" 0 0 "[5]"]
    by (simp add: example_state_def)
  show ?thesis using 1 2 3 by simp
qed

text \<open>
  C10. \<^verbatim>\<open>JUMP\<close> pops one item and \<^verbatim>\<open>JUMPI\<close> pops two on every path: \<^verbatim>\<open>op_jump\<close> has popped
  the destination before it sets \<^verbatim>\<open>BAD_JUMP_DESTINATION\<close>, and \<^verbatim>\<open>JUMPI\<close> pops the condition
  after a taken branch that failed as well.
\<close>

theorem jump_pops:
  fixes s :: "'a ExecutionState_scheme"
  shows
    "(stack s = dst # rest \<longrightarrow>
        map_option (stack \<circ> snd) (op_jump s jm) = Some rest
        \<and> (\<not> (unat dst < length jm \<and> jm ! to_size_t dst) \<longrightarrow>
             map_option (status \<circ> snd) (op_jump s jm) = Some EVMC_BAD_JUMP_DESTINATION)
        \<and> map_option (stack \<circ> outcome_state) (dispatch I jm cd ce pc s OP_JUMP) = Some rest)
     \<and> (stack s = dst # cond # rest \<longrightarrow>
        map_option (stack \<circ> outcome_state) (dispatch I jm cd ce pc s OP_JUMPI) = Some rest
        \<and> (cond \<noteq> 0 \<and> \<not> (unat dst < length jm \<and> jm ! to_size_t dst) \<longrightarrow>
             map_option (status \<circ> outcome_state) (dispatch I jm cd ce pc s OP_JUMPI)
               = Some EVMC_BAD_JUMP_DESTINATION))"
proof -
  have a: "map_option (stack \<circ> snd) (op_jump s jm) = Some rest
        \<and> (\<not> (unat dst < length jm \<and> jm ! to_size_t dst) \<longrightarrow>
             map_option (status \<circ> snd) (op_jump s jm) = Some EVMC_BAD_JUMP_DESTINATION)
        \<and> map_option (stack \<circ> outcome_state) (dispatch I jm cd ce pc s OP_JUMP) = Some rest"
    if "stack s = dst # rest"
    using op_jump_cases [OF that, of jm] by (simp add: dispatch_jump)
  have b: "map_option (stack \<circ> outcome_state) (dispatch I jm cd ce pc s OP_JUMPI) = Some rest
        \<and> (cond \<noteq> 0 \<and> \<not> (unat dst < length jm \<and> jm ! to_size_t dst) \<longrightarrow>
             map_option (status \<circ> outcome_state) (dispatch I jm cd ce pc s OP_JUMPI)
               = Some EVMC_BAD_JUMP_DESTINATION)"
    if "stack s = dst # cond # rest"
    using dispatch_jumpi_cases [OF that, of I jm cd ce pc] by simp
  show ?thesis
    apply (intro conjI impI)
    using a b by blast+
qed

theorem jump_pops_witness:
  "map_option (stack \<circ> outcome_state)
     (dispatch example_instructions [False, True] [OP_JUMP, OP_JUMPDEST] 2 0
        (example_state [OP_JUMP, OP_JUMPDEST] 10 [7, 5]) OP_JUMP) = Some [5]
   \<and> map_option (status \<circ> snd)
       (op_jump (example_state [OP_JUMP, OP_JUMPDEST] 10 [7, 5]) [False, True])
     = Some EVMC_BAD_JUMP_DESTINATION
   \<and> map_option (stack \<circ> outcome_state)
       (dispatch example_instructions [False, True] [OP_JUMPI, OP_JUMPDEST] 2 0
          (example_state [OP_JUMPI, OP_JUMPDEST] 10 [7, 1, 5]) OP_JUMPI) = Some [5]
   \<and> map_option (status \<circ> outcome_state)
       (dispatch example_instructions [False, True] [OP_JUMPI, OP_JUMPDEST] 2 0
          (example_state [OP_JUMPI, OP_JUMPDEST] 10 [7, 1, 5]) OP_JUMPI)
     = Some EVMC_BAD_JUMP_DESTINATION
   \<and> map_option (stack \<circ> outcome_state)
       (dispatch example_instructions [False, True] [OP_JUMPI, OP_JUMPDEST] 2 0
          (example_state [OP_JUMPI, OP_JUMPDEST] 10 [1, 1, 5]) OP_JUMPI) = Some [5]"
proof -
  have v: "\<not> (unat (7 :: uint256) < length [False, True] \<and> [False, True] ! to_size_t 7)"
    by simp
  have s1: "stack (example_state [OP_JUMP, OP_JUMPDEST] 10 [7, 5]) = 7 # [5]"
    and s2: "stack (example_state [OP_JUMPI, OP_JUMPDEST] 10 [7, 1, 5]) = 7 # 1 # [5]"
    and s3: "stack (example_state [OP_JUMPI, OP_JUMPDEST] 10 [1, 1, 5]) = 1 # 1 # [5]"
    by (simp_all add: example_state_def)
  note t1 = jump_pops [where s = "example_state [OP_JUMP, OP_JUMPDEST] 10 [7, 5]" and dst = 7
        and rest = "[5]" and jm = "[False, True]" and I = example_instructions
        and cd = "[OP_JUMP, OP_JUMPDEST]" and ce = 2 and pc = 0]
  note t2 = jump_pops [where s = "example_state [OP_JUMPI, OP_JUMPDEST] 10 [7, 1, 5]"
        and dst = 7 and cond = 1 and rest = "[5]" and jm = "[False, True]"
        and I = example_instructions and cd = "[OP_JUMPI, OP_JUMPDEST]" and ce = 2 and pc = 0]
  note t3 = jump_pops [where s = "example_state [OP_JUMPI, OP_JUMPDEST] 10 [1, 1, 5]"
        and dst = 1 and cond = 1 and rest = "[5]" and jm = "[False, True]"
        and I = example_instructions and cd = "[OP_JUMPI, OP_JUMPDEST]" and ce = 2 and pc = 0]
  show ?thesis using t1 t2 t3 v s1 s2 s3 by simp
qed

subsection \<open>Memory and the output window\<close>

lemma memory_cost_mono: "v \<le> w \<Longrightarrow> memory_cost v \<le> memory_cost w"
proof -
  assume "v \<le> w"
  then have "v * v \<le> w * w" by (simp add: mult_le_mono)
  then have "v * v div 512 \<le> w * w div 512" by (rule div_le_mono)
  then show ?thesis using \<open>v \<le> w\<close> by (simp add: memory_cost_def)
qed

lemma num_words_covers: "n \<le> 32 * num_words n"
  by (simp add: num_words_def)

lemma check_memory_True:
  assumes "check_memory s offset sz = (True, s')"
  shows "gas_left s' \<le> gas_left s" "0 \<le> gas_left s \<Longrightarrow> 0 \<le> gas_left s'"
    "\<exists>g k. s' = s\<lparr>gas_left := g, memory := memory s @ replicate k 0\<rparr>"
    "sz \<noteq> 0 \<Longrightarrow> unat offset \<le> size_t_max \<and> unat sz \<le> size_t_max
        \<and> unat offset + unat sz \<le> length (memory s')"
proof -
  let ?new = "num_words (unat offset + unat sz)"
  let ?old = "length (memory s) div 32"
  have cost: "0 \<le> memory_cost ?new - memory_cost ?old" if "\<not> ?new \<le> ?old"
    using memory_cost_mono [of ?old ?new] that by simp
  show "gas_left s' \<le> gas_left s"
    using assms cost by (auto simp: check_memory_def Let_def split: if_splits)
  show "0 \<le> gas_left s'" if "0 \<le> gas_left s"
    using assms that by (auto simp: check_memory_def Let_def split: if_splits)
  show "\<exists>g k. s' = s\<lparr>gas_left := g, memory := memory s @ replicate k 0\<rparr>"
  proof (cases "sz = 0 \<or> ?new \<le> ?old")
    case True
    then have "s' = s" using assms by (auto simp: check_memory_def Let_def split: if_splits)
    then have "s' = s\<lparr>gas_left := gas_left s, memory := memory s @ replicate 0 0\<rparr>" by simp
    then show ?thesis by blast
  next
    case False
    then have "s' = s\<lparr>gas_left := gas_left s - (memory_cost ?new - memory_cost ?old),
                       memory := memory s @ replicate (32 * ?new - length (memory s)) 0\<rparr>"
      using assms by (auto simp: check_memory_def Let_def split: if_splits)
    then show ?thesis by blast
  qed
  show "unat offset \<le> size_t_max \<and> unat sz \<le> size_t_max
        \<and> unat offset + unat sz \<le> length (memory s')" if "sz \<noteq> 0"
  proof -
    have fits: "unat offset \<le> size_t_max \<and> unat sz \<le> size_t_max"
      using assms that by (auto simp: check_memory_def Let_def split: if_splits)
    have "unat offset + unat sz \<le> 32 * ?new" by (rule num_words_covers)
    moreover have "32 * ?new \<le> length (memory s')"
    proof (cases "?new \<le> ?old")
      case True
      then have "s' = s" using assms by (auto simp: check_memory_def Let_def split: if_splits)
      moreover have "32 * ?old \<le> length (memory s)" by simp
      ultimately show ?thesis using True by simp
    next
      case False
      then show ?thesis using assms that
        by (auto simp: check_memory_def Let_def split: if_splits)
    qed
    ultimately show ?thesis using fits by simp
  qed
qed

lemma check_memory_False:
  assumes "check_memory s offset sz = (False, s')"
  shows "\<exists>g. s' = s\<lparr>gas_left := g\<rparr>" "gas_left s' \<le> gas_left s"
proof -
  let ?new = "num_words (unat offset + unat sz)"
  let ?old = "length (memory s) div 32"
  have cost: "0 \<le> memory_cost ?new - memory_cost ?old" if "\<not> ?new \<le> ?old"
    using memory_cost_mono [of ?old ?new] that by simp
  have "s' = s \<or> (\<not> ?new \<le> ?old
          \<and> s' = s\<lparr>gas_left := gas_left s - (memory_cost ?new - memory_cost ?old)\<rparr>)"
    using assms by (auto simp: check_memory_def Let_def split: if_splits)
  then show "gas_left s' \<le> gas_left s" using cost by auto
  show "\<exists>g. s' = s\<lparr>gas_left := g\<rparr>"
  proof (cases "s' = s")
    case True
    then have "s' = s\<lparr>gas_left := gas_left s\<rparr>" by simp
    then show ?thesis by blast
  next
    case False
    then have "s' = s\<lparr>gas_left := gas_left s - (memory_cost ?new - memory_cost ?old)\<rparr>"
      using assms by (auto simp: check_memory_def Let_def split: if_splits)
    then show ?thesis by blast
  qed
qed

lemma dispatch_return:
  "dispatch I jm cd ce pc s OP_RETURN = map_option Exit (op_return EVMC_SUCCESS s)"
  "dispatch I jm cd ce pc s OP_REVERT = map_option Exit (op_return EVMC_REVERT s)"
  by (simp_all add: dispatch_def stack_opcodes_def status_opcodes_def state_opcodes_def)

lemma op_return_cases:
  assumes "stack s = offset # sz # rest"
  shows "op_return st s =
     (case check_memory s offset sz of
        (False, s1) \<Rightarrow> Some (s1\<lparr>status := EVMC_OUT_OF_GAS\<rparr>)
      | (True, s1) \<Rightarrow>
          Some (if to_size_t sz \<noteq> 0
                then s1\<lparr>output_size := to_size_t sz, output_offset := to_size_t offset, status := st\<rparr>
                else s1\<lparr>output_size := to_size_t sz, status := st\<rparr>))"
  using assms by (simp add: op_return_def stack_at_def Let_def split: prod.splits bool.splits)

text \<open>
  C6 (amended). \<^verbatim>\<open>RETURN\<close> and \<^verbatim>\<open>REVERT\<close> read the offset and the size from the two top
  items of the stack and leave them there. They grow memory to cover the window; if the
  memory check fails the frame ends with \<^verbatim>\<open>OUT_OF_GAS\<close>, reported gas 0, and the output
  window is not touched. Otherwise \<^verbatim>\<open>output_size\<close> becomes the size and, only for a size
  other than zero, \<^verbatim>\<open>output_offset\<close> the offset; the frame ends with \<^verbatim>\<open>SUCCESS\<close>
  (\<^verbatim>\<open>RETURN\<close>) or \<^verbatim>\<open>REVERT\<close> (\<^verbatim>\<open>REVERT\<close>), and the result reports \<^verbatim>\<open>gas_left\<close> as it is.
\<close>

theorem return_revert_semantics:
  fixes s :: "'a ExecutionState_scheme"
  assumes "stack s = offset # sz # rest"
    and "(op = OP_RETURN \<and> st = EVMC_SUCCESS) \<or> (op = OP_REVERT \<and> st = EVMC_REVERT)"
    and "check_memory s offset sz = (ok, s1)"
    and "s' = (if \<not> ok then s1\<lparr>status := EVMC_OUT_OF_GAS\<rparr>
               else if sz = 0 then s1\<lparr>output_size := 0, status := st\<rparr>
               else s1\<lparr>output_size := unat sz, output_offset := unat offset, status := st\<rparr>)"
  shows "dispatch I jm cd ce pc s op = Some (Exit s')
    \<and> stack s' = offset # sz # rest
    \<and> (\<exists>k. memory s' = memory s @ replicate k 0)
    \<and> (ok \<and> sz \<noteq> 0 \<longrightarrow> unat offset + unat sz \<le> length (memory s'))
    \<and> (ok \<and> sz = 0 \<longrightarrow> output_offset s' = output_offset s)
    \<and> (ok \<longrightarrow> status_code (exit_block s') = st
              \<and> result_gas_left (exit_block s') = gas_left s'
              \<and> result_output_size (exit_block s') = unat sz
              \<and> output_data (exit_block s')
                  = (if sz = 0 then [] else take (unat sz) (drop (unat offset) (memory s'))))
    \<and> (\<not> ok \<longrightarrow> output_size s' = output_size s \<and> output_offset s' = output_offset s
              \<and> memory s' = memory s
              \<and> status_code (exit_block s') = EVMC_OUT_OF_GAS
              \<and> result_gas_left (exit_block s') = 0)"
proof (cases ok)
  case True
  have c: "check_memory s offset sz = (True, s1)" using assms(3) True by simp
  note cm = check_memory_True [OF c]
  from cm(3) obtain g k where k: "s1 = s\<lparr>gas_left := g, memory := memory s @ replicate k 0\<rparr>"
    by blast
  have fit1: "to_size_t sz = unat sz"
  proof (cases "sz = 0")
    case True
    then show ?thesis by (simp add: to_size_t_def)
  next
    case False
    then show ?thesis using cm(4) by (simp add: to_size_t_small)
  qed
  have fit2: "to_size_t offset = unat offset" if "sz \<noteq> 0"
    using cm(4) that by (simp add: to_size_t_small)
  note fit = fit1 fit2
  have nz: "unat sz = 0 \<longleftrightarrow> sz = 0" by (simp add: unat_eq_0)
  have d: "dispatch I jm cd ce pc s op = Some (Exit s')"
    using assms(2,3,4) True fit nz op_return_cases [OF assms(1), of st]
    by (auto simp: dispatch_return)
  have st: "st = EVMC_SUCCESS \<or> st = EVMC_REVERT" using assms(2) by blast
  have s1_stack: "stack s1 = offset # sz # rest" "memory s1 = memory s @ replicate k 0"
    "output_offset s1 = output_offset s"
    using assms(1) by (simp_all add: k)
  show ?thesis
    using d True assms(4) s1_stack cm(4) st nz
    by (auto simp: exit_block_def make_result_def)
next
  case False
  have c: "check_memory s offset sz = (False, s1)" using assms(3) False by simp
  from check_memory_False(1) [OF c] obtain g where cm: "s1 = s\<lparr>gas_left := g\<rparr>" by blast
  have d: "dispatch I jm cd ce pc s op = Some (Exit s')"
    using assms(2,3,4) False op_return_cases [OF assms(1), of st]
    by (auto simp: dispatch_return)
  have s1: "stack s1 = offset # sz # rest" "memory s1 = memory s"
    "output_offset s1 = output_offset s" "output_size s1 = output_size s"
    using assms(1) by (simp_all add: cm)
  show ?thesis
    using d False assms(4) s1
    by (auto simp: exit_block_def make_result_def)
qed

theorem return_revert_semantics_witness:
  "dispatch example_instructions [False] [OP_RETURN] 1 0 (example_state [OP_RETURN] 10 [0, 32, 5]) OP_RETURN
     = Some (Exit ((example_state [OP_RETURN] 7 [0, 32, 5])
                     \<lparr>memory := replicate 32 0, output_size := 32\<rparr>))
   \<and> dispatch example_instructions [False] [OP_REVERT] 1 0 (example_state [OP_REVERT] 2 [0, 32, 5]) OP_REVERT
     = Some (Exit ((example_state [OP_REVERT] (- 1) [0, 32, 5])\<lparr>status := EVMC_OUT_OF_GAS\<rparr>))"
proof -
  have m: "check_memory (example_state [OP_RETURN] 10 [0, 32, 5]) 0 32
           = (True, (example_state [OP_RETURN] 7 [0, 32, 5])\<lparr>memory := replicate 32 0\<rparr>)"
    by (simp add: check_memory_def example_state_def size_t_max_def num_words_def memory_cost_def)
  have m': "check_memory (example_state [OP_REVERT] 2 [0, 32, 5]) 0 32
           = (False, example_state [OP_REVERT] (- 1) [0, 32, 5])"
    by (simp add: check_memory_def example_state_def size_t_max_def num_words_def memory_cost_def)
  have s: "stack (example_state [OP_RETURN] 10 [0, 32, 5]) = 0 # 32 # [5]"
    "stack (example_state [OP_REVERT] 2 [0, 32, 5]) = 0 # 32 # [5]"
    by (simp_all add: example_state_def)
  from return_revert_semantics [OF s(1) _ m refl, of OP_RETURN EVMC_SUCCESS
      example_instructions "[False]" "[OP_RETURN]" 1 0]
  have 1: "dispatch example_instructions [False] [OP_RETURN] 1 0
       (example_state [OP_RETURN] 10 [0, 32, 5]) OP_RETURN
     = Some (Exit ((example_state [OP_RETURN] 7 [0, 32, 5])
                     \<lparr>memory := replicate 32 0, output_size := 32\<rparr>))"
    by (simp add: example_state_def)
  from return_revert_semantics [OF s(2) _ m' refl, of OP_REVERT EVMC_REVERT
      example_instructions "[False]" "[OP_REVERT]" 1 0]
  have 2: "dispatch example_instructions [False] [OP_REVERT] 1 0
       (example_state [OP_REVERT] 2 [0, 32, 5]) OP_REVERT
     = Some (Exit ((example_state [OP_REVERT] (- 1) [0, 32, 5])\<lparr>status := EVMC_OUT_OF_GAS\<rparr>))"
    by simp
  show ?thesis using 1 2 by simp
qed

theorem return_pops_counterexample:
  "dispatch example_instructions [False] [OP_RETURN] 1 0 (example_state [OP_RETURN] 10 [0, 0, 5]) OP_RETURN
     = Some (Exit (example_state [OP_RETURN] 10 [0, 0, 5]))
   \<and> stack (example_state [OP_RETURN] 10 [0, 0, 5]) \<noteq> [5]"
  by (simp add: dispatch_return op_return_def stack_at_def check_memory_def to_size_t_def
        example_state_def)

subsection \<open>The loop\<close>

lemma loop_invariant_aux:
  assumes "baseline_execute_loop n0 m0 I0 jm0 cd0 ce0 pc s = Some s'"
  shows "n0 = n \<Longrightarrow> m0 = m \<Longrightarrow> I0 = I \<Longrightarrow> jm0 = jm \<Longrightarrow> cd0 = cd \<Longrightarrow> ce0 = ce \<Longrightarrow> Inv s
    \<Longrightarrow> (\<And>pc s pc' s1. Inv s \<Longrightarrow> pc < ce
           \<Longrightarrow> loop_body n m I jm cd ce pc s = Some (Continue pc' s1) \<Longrightarrow> Inv s1)
    \<Longrightarrow> (\<And>pc s s1. Inv s \<Longrightarrow> pc < ce
           \<Longrightarrow> loop_body n m I jm cd ce pc s = Some (Exit s1) \<Longrightarrow> Q s1)
    \<Longrightarrow> (\<And>s. Inv s \<Longrightarrow> Q s)
    \<Longrightarrow> Q s'"
  using assms
proof (induction rule: baseline_execute_loop.raw_induct [rotated 1, consumes 1, case_names step])
  case (step loop n0 m0 I0 jm0 cd0 ce0 pc s s')
  note eqs = step.prems(1-6)
  note inv = step.prems(7) and cont = step.prems(8) and ex = step.prems(9) and fin = step.prems(10)
  have body: "(if pc = ce then Some s
      else if ce < pc then None
      else case loop_body n m I jm cd ce pc s of None \<Rightarrow> None
           | Some (Exit state1) \<Rightarrow> Some state1
           | Some (Continue pc' state1) \<Rightarrow> loop n m I jm cd ce pc' state1) = Some s'"
    using step.hyps by (simp only: eqs)
  show ?case
  proof (cases "pc = ce")
    case True
    then show ?thesis using body inv fin by simp
  next
    case False
    then have lt: "pc < ce" using body by (auto split: if_splits)
    show ?thesis
    proof (cases "loop_body n m I jm cd ce pc s")
      case None
      then show ?thesis using body False lt by simp
    next
      case (Some out)
      show ?thesis
      proof (cases out)
        case (Exit s1)
        then have "s' = s1" using body Some False lt by simp
        then show ?thesis using inv ex lt Some Exit by blast
      next
        case (Continue pc' s1)
        then have run: "loop n0 m0 I0 jm0 cd0 ce0 pc' s1 = Some s'"
          using body eqs Some False lt by simp
        have inv1: "Inv s1" using inv cont lt Some Continue by blast
        show ?thesis by (rule step.IH [OF run eqs inv1 cont ex fin])
      qed
    qed
  qed
qed

lemma loop_invariant:
  assumes "baseline_execute_loop n m I jm cd ce pc s = Some s'" "Inv s"
    and "\<And>pc s pc' s1. Inv s \<Longrightarrow> pc < ce
           \<Longrightarrow> loop_body n m I jm cd ce pc s = Some (Continue pc' s1) \<Longrightarrow> Inv s1"
    and "\<And>pc s s1. Inv s \<Longrightarrow> pc < ce
           \<Longrightarrow> loop_body n m I jm cd ce pc s = Some (Exit s1) \<Longrightarrow> Q s1"
    and "\<And>s. Inv s \<Longrightarrow> Q s"
  shows "Q s'"
  using loop_invariant_aux [OF assms(1) refl refl refl refl refl refl, of Inv Q] assms(2-5)
  by blast

subsection \<open>What one pass through the loop does to the output window and to the gas\<close>

lemma if_Some_cases:
  assumes "(if c then a else b) = Some out"
  obtains "c" "a = Some out" | "\<not> c" "b = Some out"
  using assms by (cases c) simp_all

lemma op_return_effect:
  assumes "op_return st s = Some s1"
  shows "gas_left s1 \<le> gas_left s
         \<and> (status s1 = EVMC_OUT_OF_GAS \<and> output_size s1 = output_size s
             \<or> status s1 = st \<and> (0 \<le> gas_left s \<longrightarrow> 0 \<le> gas_left s1))"
proof -
  from assms obtain offset sz where st: "stack_at (stack s) 0 = Some offset"
      "stack_at (stack s) 1 = Some sz"
    by (auto simp: op_return_def bind_eq_Some_conv)
  obtain ok s0 where cm: "check_memory s offset sz = (ok, s0)" by (cases "check_memory s offset sz")
  show ?thesis
  proof (cases ok)
    case True
    then have c: "check_memory s offset sz = (True, s0)" using cm by simp
    have "gas_left s0 \<le> gas_left s" "0 \<le> gas_left s \<Longrightarrow> 0 \<le> gas_left s0"
      using check_memory_True(1,2) [OF c] by simp_all
    then show ?thesis using assms st c
      by (auto simp: op_return_def Let_def split: if_splits)
  next
    case False
    then have c: "check_memory s offset sz = (False, s0)" using cm by simp
    from check_memory_False(1) [OF c] obtain g where g: "s0 = s\<lparr>gas_left := g\<rparr>" by blast
    have "gas_left s0 \<le> gas_left s" by (rule check_memory_False(2) [OF c])
    then show ?thesis using assms st c g
      by (auto simp: op_return_def Let_def split: if_splits)
  qed
qed

lemma dispatch_output:
  assumes "instructions_keep_output I" "dispatch I jm cd ce pc s op = Some out"
  shows "output_size (outcome_state out) = output_size s
         \<or> ((op = OP_RETURN \<or> op = OP_REVERT) \<and> out = Exit (outcome_state out)
             \<and> (status (outcome_state out) = EVMC_SUCCESS \<or> status (outcome_state out) = EVMC_REVERT))"
proof -
  have k1: "output_size (state_instr I op s) = output_size s" for op s
    using assms(1) by (simp add: instructions_keep_output_def)
  have k2: "output_size s1 = output_size s" if "status_instr I op s = (stc, s1)" for op s stc s1
  proof -
    have "snd (status_instr I op s) = s1" using that by simp
    then show ?thesis using assms(1) unfolding instructions_keep_output_def by metis
  qed
  note r = op_return_effect
  from assms(2) show ?thesis unfolding dispatch_def
    apply (elim if_Some_cases)
    apply (auto split: if_splits option.splits prod.splits
        simp: op_jump_def load_push_def stack_push_def Let_def bind_eq_Some_conv k1 k2
        dest: r)
    done
qed

lemma dispatch_gas:
  assumes "instructions_charge_gas I" "dispatch I jm cd ce pc s op = Some out"
    "0 \<le> gas_left s"
  shows "gas_left (outcome_state out) \<le> gas_left s
         \<and> (0 \<le> gas_left (outcome_state out)
             \<or> (out = Exit (outcome_state out)
                 \<and> status (outcome_state out) \<noteq> EVMC_SUCCESS
                 \<and> status (outcome_state out) \<noteq> EVMC_REVERT))"
proof -
  have k1: "gas_left (state_instr I op s) = gas_left s" for op s
    using assms(1) by (simp add: instructions_charge_gas_def)
  have k2: "gas_left s1 \<le> gas_left s
            \<and> (0 \<le> gas_left s \<and> (stc = EVMC_SUCCESS \<or> stc = EVMC_REVERT) \<longrightarrow> 0 \<le> gas_left s1)"
    if "status_instr I op s = (stc, s1)" for op s stc s1
  proof -
    have "snd (status_instr I op s) = s1" "fst (status_instr I op s) = stc" using that by simp_all
    then show ?thesis using assms(1) unfolding instructions_charge_gas_def by metis
  qed
  note r = op_return_effect
  from assms(2,3) show ?thesis unfolding dispatch_def
    apply (elim if_Some_cases)
    apply (auto split: if_splits option.splits prod.splits
        simp: op_jump_def load_push_def stack_push_def Let_def bind_eq_Some_conv k1
        dest: r k2)
    done
qed

lemma loop_body_cases:
  assumes "loop_body n m I jm cd ce pc s = Some out"
  obtains (failed) stc g where "stc \<noteq> EVMC_SUCCESS" "stc \<noteq> EVMC_REVERT"
      "out = Exit (s\<lparr>gas_left := g, status := stc\<rparr>)"
  | (passed) "n (cd ! pc) \<noteq> None"
      "0 \<le> int64_t (gas_left s - sint (gas_cost (m (cd ! pc))))"
      "dispatch I jm cd ce pc
         (s\<lparr>gas_left := int64_t (gas_left s - sint (gas_cost (m (cd ! pc))))\<rparr>) (cd ! pc)
         = Some out"
proof -
  let ?op = "cd ! pc"
  let ?s1 = "s\<lparr>gas_left := int64_t (gas_left s - sint (gas_cost (m ?op)))\<rparr>"
  note cr = check_requirements_cases [OF refl, of n m s ?op]
  show ?thesis
  proof (cases "fst (check_requirements n m s ?op) = EVMC_SUCCESS")
    case True
    then have "n ?op \<noteq> None" "0 \<le> int64_t (gas_left s - sint (gas_cost (m ?op)))"
      "check_requirements n m s ?op = (EVMC_SUCCESS, ?s1)"
      using cr by (auto split: if_splits)
    then show ?thesis using assms passed by (simp add: loop_body_def Let_def)
  next
    case False
    then have out: "out = Exit ((snd (check_requirements n m s ?op))
                                 \<lparr>status := fst (check_requirements n m s ?op)\<rparr>)"
      using assms by (simp add: loop_body_def Let_def split: prod.splits)
    have "fst (check_requirements n m s ?op) \<noteq> EVMC_REVERT"
      using cr by (auto split: if_splits)
    moreover have "snd (check_requirements n m s ?op) = s\<lparr>gas_left := gas_left s\<rparr>
        \<or> snd (check_requirements n m s ?op) = ?s1"
      using cr by (auto split: if_splits)
    ultimately show ?thesis using False out failed by metis
  qed
qed

lemma loop_output:
  assumes "instructions_keep_output I"
    "baseline_execute_loop n m I jm cd ce pc s = Some s'" "output_size s = 0"
  shows "output_size s' = 0 \<or> status s' = EVMC_SUCCESS \<or> status s' = EVMC_REVERT"
proof (rule loop_invariant [OF assms(2), where Inv = "\<lambda>s. output_size s = 0"])
  show "output_size s = 0" by (rule assms(3))
next
  fix pc s pc' s1
  assume a: "output_size (s :: 'a ExecutionState_scheme) = 0"
    "loop_body n m I jm cd ce pc s = Some (Continue pc' s1)"
  from a(2) show "output_size s1 = 0"
  proof (cases rule: loop_body_cases)
    case (failed stc g)
    then show ?thesis by simp
  next
    case passed
    from dispatch_output [OF assms(1) passed(3)] a(1) show ?thesis by simp
  qed
next
  fix pc s s1
  assume a: "output_size (s :: 'a ExecutionState_scheme) = 0"
    "loop_body n m I jm cd ce pc s = Some (Exit s1)"
  from a(2) show "output_size s1 = 0 \<or> status s1 = EVMC_SUCCESS \<or> status s1 = EVMC_REVERT"
  proof (cases rule: loop_body_cases)
    case (failed stc g)
    then show ?thesis using a(1) by simp
  next
    case passed
    from dispatch_output [OF assms(1) passed(3)] a(1) show ?thesis by auto
  qed
next
  fix s :: "'a ExecutionState_scheme"
  assume "output_size s = 0"
  then show "output_size s = 0 \<or> status s = EVMC_SUCCESS \<or> status s = EVMC_REVERT" by simp
qed

lemma charged_le:
  fixes c :: "16 word"
  assumes "0 \<le> g" "0 \<le> sint c"
  shows "int64_t (g - sint c) \<le> g"
proof -
  have "sint c < 2 ^ 15" using sint_lt [of c] by simp
  then have "- (2 ^ 63) \<le> g - sint c" using assms(1) by simp
  then have "int64_t (g - sint c) \<le> g - sint c" by (rule int64_t_le)
  then show ?thesis using assms(2) by simp
qed

lemma loop_gas:
  assumes "instructions_charge_gas I" "costs_nonnegative n m"
    "baseline_execute_loop n m I jm cd ce pc s = Some s'" "0 \<le> gas_left s" "gas_left s \<le> G"
  shows "status s' = EVMC_SUCCESS \<or> status s' = EVMC_REVERT
           \<longrightarrow> 0 \<le> gas_left s' \<and> gas_left s' \<le> G"
proof (rule loop_invariant [OF assms(3), where Inv = "\<lambda>s. 0 \<le> gas_left s \<and> gas_left s \<le> G"])
  show "0 \<le> gas_left s \<and> gas_left s \<le> G" using assms(4,5) by simp
next
  fix pc s pc' s1
  assume a: "0 \<le> gas_left (s :: 'a ExecutionState_scheme) \<and> gas_left s \<le> G"
    "loop_body n m I jm cd ce pc s = Some (Continue pc' s1)"
  from a(2) show "0 \<le> gas_left s1 \<and> gas_left s1 \<le> G"
  proof (cases rule: loop_body_cases)
    case (failed stc g)
    then show ?thesis by simp
  next
    case passed
    have c: "0 \<le> sint (gas_cost (m (cd ! pc)))"
      using assms(2) passed(1) by (simp add: costs_nonnegative_def)
    have g: "int64_t (gas_left s - sint (gas_cost (m (cd ! pc)))) \<le> G"
      using charged_le [OF _ c, of "gas_left s"] a(1) by simp
    from dispatch_gas [OF assms(1) passed(3)] passed(2) g show ?thesis by auto
  qed
next
  fix pc s s1
  assume a: "0 \<le> gas_left (s :: 'a ExecutionState_scheme) \<and> gas_left s \<le> G"
    "loop_body n m I jm cd ce pc s = Some (Exit s1)"
  from a(2) show "status s1 = EVMC_SUCCESS \<or> status s1 = EVMC_REVERT
           \<longrightarrow> 0 \<le> gas_left s1 \<and> gas_left s1 \<le> G"
  proof (cases rule: loop_body_cases)
    case (failed stc g)
    then show ?thesis by simp
  next
    case passed
    have c: "0 \<le> sint (gas_cost (m (cd ! pc)))"
      using assms(2) passed(1) by (simp add: costs_nonnegative_def)
    have g: "int64_t (gas_left s - sint (gas_cost (m (cd ! pc)))) \<le> G"
      using charged_le [OF _ c, of "gas_left s"] a(1) by simp
    from dispatch_gas [OF assms(1) passed(3)] passed(2) g show ?thesis by auto
  qed
next
  fix s :: "'a ExecutionState_scheme"
  assume "0 \<le> gas_left s \<and> gas_left s \<le> G"
  then show "status s = EVMC_SUCCESS \<or> status s = EVMC_REVERT
           \<longrightarrow> 0 \<le> gas_left s \<and> gas_left s \<le> G" by simp
qed

subsection \<open>Whole executions\<close>

text \<open>
  C8. Empty code: the loop body never runs, the state stays as the constructor made it, and
  the result is \<^verbatim>\<open>SUCCESS\<close> with the gas of the message and an empty output.
\<close>

theorem empty_code:
  "baseline_execute_loop n m I (build_jumpdest_map []) [] 0 0 (ExecutionState_init msg [] host)
     = Some (ExecutionState_init msg [] host)
   \<and> baseline_execute n m I host msg []
     = Some \<lparr>status_code = EVMC_SUCCESS, result_gas_left = gas msg, output_data = [],
             result_output_size = 0\<rparr>"
  using loop_end [of n m I "build_jumpdest_map []" "[]" 0 "ExecutionState_init msg [] host"]
  by (simp add: baseline_execute_def Let_def exit_block_def make_result_def
        ExecutionState_init_def)

theorem empty_code_witness:
  "baseline_execute example_names example_metrics example_instructions () \<lparr>gas = 100\<rparr> []
     = Some \<lparr>status_code = EVMC_SUCCESS, result_gas_left = 100, output_data = [],
             result_output_size = 0\<rparr>"
  using empty_code [of example_names example_metrics example_instructions "\<lparr>gas = 100\<rparr>" "()"]
  by simp

lemmas example_eval =
  loop_body_def check_requirements_def dispatch_def stack_opcodes_def status_opcodes_def
  state_opcodes_def example_names_def example_metrics_def example_instructions_def
  load_push_def stack_push_def stack_pop_def stack_at_def op_jump_def to_size_t_def be_load_def
  limit_def int64_t_def Let_def

text \<open>
  C1 (amended). The result carries the final status; its gas is the final \<^verbatim>\<open>gas_left\<close> for
  \<^verbatim>\<open>SUCCESS\<close> and \<^verbatim>\<open>REVERT\<close> and 0 for every other status. When the gas of the message is
  not negative, that gas is at least 0 and at most the gas of the message (for a metrics
  table with base costs that are not negative, and instructions that never add gas and
  fail when they run out of it).
\<close>

theorem baseline_execute_gas:
  assumes "baseline_execute_loop n m I (build_jumpdest_map cd) cd (length cd) 0
             (ExecutionState_init msg cd host) = Some s'"
  shows "baseline_execute n m I host msg cd = Some (exit_block s')
    \<and> status_code (exit_block s') = status s'
    \<and> result_gas_left (exit_block s')
        = (if status s' = EVMC_SUCCESS \<or> status s' = EVMC_REVERT then gas_left s' else 0)
    \<and> (0 \<le> gas msg \<and> costs_nonnegative n m \<and> instructions_charge_gas I \<longrightarrow>
          0 \<le> result_gas_left (exit_block s') \<and> result_gas_left (exit_block s') \<le> gas msg)"
proof -
  have r: "baseline_execute n m I host msg cd = Some (exit_block s')"
    using assms by (simp add: baseline_execute_def Let_def)
  have g: "result_gas_left (exit_block s')
        = (if status s' = EVMC_SUCCESS \<or> status s' = EVMC_REVERT then gas_left s' else 0)"
    "status_code (exit_block s') = status s'"
    by (simp_all add: exit_block_def make_result_def Let_def)
  have b: "0 \<le> result_gas_left (exit_block s') \<and> result_gas_left (exit_block s') \<le> gas msg"
    if "0 \<le> gas msg" "costs_nonnegative n m" "instructions_charge_gas I"
  proof -
    have "gas_left (ExecutionState_init msg cd host) = gas msg"
      by (simp add: ExecutionState_init_def)
    with loop_gas [OF that(3,2) assms, of "gas msg"] that(1)
    have "status s' = EVMC_SUCCESS \<or> status s' = EVMC_REVERT
           \<longrightarrow> 0 \<le> gas_left s' \<and> gas_left s' \<le> gas msg" by simp
    then show ?thesis using g(1) that(1) by auto
  qed
  show ?thesis using r g b by simp
qed

theorem baseline_execute_gas_witness:
  "baseline_execute example_names example_metrics example_instructions () \<lparr>gas = 10\<rparr>
     [OP_PUSH1, 1, OP_JUMPDEST]
   = Some \<lparr>status_code = EVMC_SUCCESS, result_gas_left = 6, output_data = [],
           result_output_size = 0\<rparr>"
proof -
  let ?cd = "[OP_PUSH1, 1, OP_JUMPDEST]"
  let ?jm = "build_jumpdest_map ?cd"
  have b1: "loop_body example_names example_metrics example_instructions ?jm ?cd 3 0
              (example_state ?cd 10 []) = Some (Continue 2 (example_state ?cd 7 [1]))"
    by (simp add: example_eval example_state_def)
  have b2: "loop_body example_names example_metrics example_instructions ?jm ?cd 3 2
              (example_state ?cd 7 [1]) = Some (Continue 3 (example_state ?cd 6 [1]))"
    by (simp add: example_eval example_state_def)
  have init: "ExecutionState_init \<lparr>gas = 10\<rparr> ?cd () = example_state ?cd 10 []"
    by (simp add: ExecutionState_init_def example_state_def)
  have run: "baseline_execute_loop example_names example_metrics example_instructions ?jm ?cd
               (length ?cd) 0 (ExecutionState_init \<lparr>gas = 10\<rparr> ?cd ())
             = Some (example_state ?cd 6 [1])"
    using loop_continue [OF _ b1] loop_continue [OF _ b2]
      loop_end [of example_names example_metrics example_instructions ?jm ?cd 3
        "example_state ?cd 6 [1]"]
    by (simp add: init numeral_3_eq_3)
  have c: "costs_nonnegative example_names example_metrics"
    by (simp add: costs_nonnegative_def example_names_def example_metrics_def)
  have i: "instructions_charge_gas example_instructions"
    by (simp add: instructions_charge_gas_def example_instructions_def)
  from baseline_execute_gas [OF run] c i show ?thesis
    by (simp add: exit_block_def make_result_def example_state_def)
qed

theorem negative_gas_counterexample:
  "baseline_execute example_names example_metrics example_instructions () \<lparr>gas = - 1\<rparr> []
     = Some \<lparr>status_code = EVMC_SUCCESS, result_gas_left = - 1, output_data = [],
             result_output_size = 0\<rparr>
   \<and> \<not> (0 :: int) \<le> - 1"
  using loop_end [of example_names example_metrics example_instructions "build_jumpdest_map []"
      "[]" 0 "ExecutionState_init \<lparr>gas = - 1\<rparr> [] ()"]
  by (simp add: baseline_execute_def Let_def exit_block_def make_result_def
        ExecutionState_init_def)

text \<open>
  C7. An execution that ends with a halting error returns no output and reports no gas.
  \<^verbatim>\<open>output_size\<close> changes in the \<^verbatim>\<open>RETURN\<close> and \<^verbatim>\<open>REVERT\<close> cases of the switch alone, and
  those leave the loop. (The instructions of \<^verbatim>\<open>instructions.hpp\<close> do not write the output
  window.)
\<close>

theorem halting_error_result:
  assumes "instructions_keep_output I"
  shows "(baseline_execute n m I host msg cd = Some r \<and> status_code r \<in> halting_errors \<longrightarrow>
            result_output_size r = 0 \<and> output_data r = [] \<and> result_gas_left r = 0)
    \<and> (dispatch I jm cd' ce pc s op = Some out
          \<and> output_size (outcome_state out) \<noteq> output_size s \<longrightarrow>
            (op = OP_RETURN \<or> op = OP_REVERT) \<and> out = Exit (outcome_state out))"
proof -
  have a: "result_output_size r = 0 \<and> output_data r = [] \<and> result_gas_left r = 0"
    if run: "baseline_execute n m I host msg cd = Some r" and err: "status_code r \<in> halting_errors"
  proof -
    from run obtain s' where s': "baseline_execute_loop n m I (build_jumpdest_map cd) cd (length cd) 0
             (ExecutionState_init msg cd host) = Some s'" "r = exit_block s'"
      by (auto simp: baseline_execute_def Let_def)
    have st: "status s' \<noteq> EVMC_SUCCESS" "status s' \<noteq> EVMC_REVERT"
      using err s'(2) by (auto simp: halting_errors_def exit_block_def make_result_def Let_def)
    have "output_size (ExecutionState_init msg cd host) = 0"
      by (simp add: ExecutionState_init_def)
    from loop_output [OF assms s'(1) this] st have "output_size s' = 0" by simp
    then show ?thesis using s'(2) st by (simp add: exit_block_def make_result_def Let_def)
  qed
  have b: "(op = OP_RETURN \<or> op = OP_REVERT) \<and> out = Exit (outcome_state out)"
    if "dispatch I jm cd' ce pc s op = Some out"
      "output_size (outcome_state out) \<noteq> output_size s"
    using dispatch_output [OF assms that(1)] that(2) by blast
  show ?thesis using a b by blast
qed

theorem halting_error_result_witness:
  "baseline_execute example_names example_metrics example_instructions () \<lparr>gas = 20\<rparr>
     [OP_PUSH1, 2, OP_JUMP]
   = Some \<lparr>status_code = EVMC_BAD_JUMP_DESTINATION, result_gas_left = 0, output_data = [],
           result_output_size = 0\<rparr>
   \<and> EVMC_BAD_JUMP_DESTINATION \<in> halting_errors"
proof -
  let ?cd = "[OP_PUSH1, 2, OP_JUMP]"
  let ?jm = "build_jumpdest_map ?cd"
  let ?r = "\<lparr>status_code = EVMC_BAD_JUMP_DESTINATION, result_gas_left = 9, output_data = [],
           result_output_size = 0\<rparr>"
  have jm: "?jm = [False, False, False]"
    by (simp add: build_jumpdest_map_def jumpdest_loop.simps)
  have b1: "loop_body example_names example_metrics example_instructions ?jm ?cd 3 0
              (example_state ?cd 20 []) = Some (Continue 2 (example_state ?cd 17 [2]))"
    by (simp add: example_eval example_state_def)
  have b2: "loop_body example_names example_metrics example_instructions ?jm ?cd 3 2
              (example_state ?cd 17 [2])
            = Some (Continue 3 ((example_state ?cd 9 [])\<lparr>status := EVMC_BAD_JUMP_DESTINATION\<rparr>))"
    by (simp add: example_eval example_state_def jm)
  have init: "ExecutionState_init \<lparr>gas = 20\<rparr> ?cd () = example_state ?cd 20 []"
    by (simp add: ExecutionState_init_def example_state_def)
  have run: "baseline_execute_loop example_names example_metrics example_instructions ?jm ?cd
               (length ?cd) 0 (ExecutionState_init \<lparr>gas = 20\<rparr> ?cd ())
             = Some ((example_state ?cd 9 [])\<lparr>status := EVMC_BAD_JUMP_DESTINATION\<rparr>)"
    using loop_continue [OF _ b1] loop_continue [OF _ b2]
      loop_end [of example_names example_metrics example_instructions ?jm ?cd 3
        "(example_state ?cd 9 [])\<lparr>status := EVMC_BAD_JUMP_DESTINATION\<rparr>"]
    by (simp add: init numeral_3_eq_3)
  have ex: "baseline_execute example_names example_metrics example_instructions () \<lparr>gas = 20\<rparr> ?cd
      = Some (exit_block ((example_state ?cd 9 [])\<lparr>status := EVMC_BAD_JUMP_DESTINATION\<rparr>))"
    using run by (simp add: baseline_execute_def Let_def numeral_3_eq_3)
  have st: "status_code (exit_block ((example_state ?cd 9 [])\<lparr>status := EVMC_BAD_JUMP_DESTINATION\<rparr>))
            = EVMC_BAD_JUMP_DESTINATION"
    by (simp add: exit_block_def make_result_def Let_def)
  have h: "EVMC_BAD_JUMP_DESTINATION \<in> halting_errors" by (simp add: halting_errors_def)
  have k: "instructions_keep_output example_instructions"
    by (simp add: instructions_keep_output_def example_instructions_def)
  from halting_error_result [OF k, THEN conjunct1, rule_format, OF conjI, OF ex] st h
  have "result_output_size (exit_block ((example_state ?cd 9 [])\<lparr>status := EVMC_BAD_JUMP_DESTINATION\<rparr>)) = 0
      \<and> output_data (exit_block ((example_state ?cd 9 [])\<lparr>status := EVMC_BAD_JUMP_DESTINATION\<rparr>)) = []
      \<and> result_gas_left (exit_block ((example_state ?cd 9 [])\<lparr>status := EVMC_BAD_JUMP_DESTINATION\<rparr>)) = 0"
    by simp
  then have "exit_block ((example_state ?cd 9 [])\<lparr>status := EVMC_BAD_JUMP_DESTINATION\<rparr>)
      = \<lparr>status_code = EVMC_BAD_JUMP_DESTINATION, result_gas_left = 0, output_data = [],
           result_output_size = 0\<rparr>"
    using st by (cases "exit_block ((example_state ?cd 9 [])\<lparr>status := EVMC_BAD_JUMP_DESTINATION\<rparr>)") simp
  then show ?thesis using ex h by simp
qed

end
